theory Spec2Isabelle
  imports Main "HOL-Library.Word" "HOL-Library.Signed_Division"
begin

section \<open>The InfluxDB firehose nozzle client (influxdbclient/influxdb_client.go)\<close>

text \<open>
  The client aggregates dropsonde envelopes in a Go map keyed by \<open>metricKey\<close> and posts
  the aggregate as InfluxDB line protocol. The model follows the Go file function by
  function. Three things lie outside the file and are made explicit:
  \<^item> \<open>float64\<close>: the client never computes on floats; it receives them from envelopes,
    converts \<open>uint64\<close> counters with \<open>float64(x)\<close> and prints them with
    \<open>strconv.FormatFloat(x, 'f', -1, 64)\<close>. The float type is therefore a type
    parameter \<open>'f\<close>, and the literal \<open>0\<close>, the conversion and the printer are the three
    fields of a \<open>float64_ops\<close> record handed to the functions that use them.
  \<^item> \<open>time.Now().Unix()\<close>: every reading of the clock is an argument (\<open>now\<close>), one for
    each call that reads it.
  \<^item> the iteration order of \<open>range\<close> over a Go map, which the language leaves open:
    it is an argument \<open>order\<close>, the list of keys in the order the loop visits them.
\<close>

subsection \<open>Data\<close>

type_synonym int64 = "64 word"
type_synonym uint64 = "64 word"
type_synonym Envelope_EventType = "32 word"

text \<open>
  The two event types the client looks at. \<open>Envelope_EventType\<close> is an \<open>int32\<close> enum
  generated from the dropsonde protocol (package \<open>events\<close> of sonde-go, an imported
  dependency), where \<open>ValueMetric = 6\<close> and \<open>CounterEvent = 7\<close>. The zero value of the
  type, which a \<open>metricKey\<close> literal without \<open>eventType\<close> carries, is \<open>0\<close>.
\<close>

definition Envelope_ValueMetric :: Envelope_EventType where
  "Envelope_ValueMetric = 6"

definition Envelope_CounterEvent :: Envelope_EventType where
  "Envelope_CounterEvent = 7"

record 'f float64_ops =
  float64_zero :: 'f
  float64_of_uint64 :: "uint64 \<Rightarrow> 'f"
  FormatFloat :: "'f \<Rightarrow> string"

record 'f ValueMetric =
  vm_Name :: string
  vm_Value :: 'f

record CounterEvent =
  ce_Name :: string
  ce_Total :: uint64

text \<open>
  An envelope as its generated getters show it: each scalar field holds what the getter
  returns (the protobuf default when the optional field is unset), and the two nested
  payloads are pointers that may be nil.
\<close>

record 'f Envelope =
  GetOrigin :: string
  GetEventType :: Envelope_EventType
  GetTimestamp :: int64
  GetDeployment :: string
  GetJob :: string
  GetIndex :: string
  GetIp :: string
  GetValueMetric :: "'f ValueMetric option"
  GetCounterEvent :: "CounterEvent option"

text \<open>
  The getters of the nested messages are generated with a nil check on the receiver:
  on a nil payload they return the zero value of the field instead of dereferencing.
\<close>

definition ValueMetric_GetName :: "'f ValueMetric option \<Rightarrow> string" where
  "ValueMetric_GetName m = (case m of None \<Rightarrow> [] | Some v \<Rightarrow> vm_Name v)"

definition ValueMetric_GetValue :: "'f float64_ops \<Rightarrow> 'f ValueMetric option \<Rightarrow> 'f" where
  "ValueMetric_GetValue F m = (case m of None \<Rightarrow> float64_zero F | Some v \<Rightarrow> vm_Value v)"

definition CounterEvent_GetName :: "CounterEvent option \<Rightarrow> string" where
  "CounterEvent_GetName m = (case m of None \<Rightarrow> [] | Some v \<Rightarrow> ce_Name v)"

definition CounterEvent_GetTotal :: "CounterEvent option \<Rightarrow> uint64" where
  "CounterEvent_GetTotal m = (case m of None \<Rightarrow> 0 | Some v \<Rightarrow> ce_Total v)"

record metricKey =
  eventType :: Envelope_EventType
  name :: string
  deployment :: string
  job :: string
  index :: string
  ip :: string

record 'f Point =
  Timestamp :: int64
  Value :: 'f

record 'f metricValue =
  tags :: "string list"
  points :: "'f Point list"

record 'f Client =
  url :: string
  database :: string
  user :: string
  password :: string
  metricPoints :: "metricKey \<rightharpoonup> 'f metricValue"
  prefix :: string
  c_deployment :: string
  c_ip :: string
  totalMessagesReceived :: uint64
  totalMetricsSent :: uint64

datatype panic = Panic string

text \<open>What \<open>http.DefaultClient.Do\<close> gives back: an error, or a response with its status.\<close>

datatype http_outcome = DoError string | DoResponse int string

definition New :: "string \<Rightarrow> string \<Rightarrow> string \<Rightarrow> string \<Rightarrow> string \<Rightarrow> string \<Rightarrow> string \<Rightarrow> 'f Client" where
  "New u db usr pw pre dep addr =
     \<lparr>url = u, database = db, user = usr, password = pw, metricPoints = Map.empty,
      prefix = pre, c_deployment = dep, c_ip = addr,
      totalMessagesReceived = 0, totalMetricsSent = 0\<rparr>"

subsection \<open>Library functions the client calls\<close>

text \<open>\<open>strconv.FormatInt(i, 10)\<close>: an optional minus sign and the decimal digits.\<close>

definition digit_char :: "nat \<Rightarrow> char" where
  "digit_char d = ''0123456789'' ! d"

function decimal :: "nat \<Rightarrow> string" where
  "decimal n = (if n < 10 then [digit_char n] else decimal (n div 10) @ [digit_char (n mod 10)])"
  by pat_completeness auto
termination
  by (relation "measure (\<lambda>n. n)") auto

declare decimal.simps [simp del]

definition FormatInt :: "int64 \<Rightarrow> string" where
  "FormatInt i = (if sint i < 0 then CHR ''-'' # decimal (nat (- sint i)) else decimal (nat (sint i)))"

text \<open>Go's \<open>/\<close> on \<open>int64\<close> truncates towards zero; \<open>int64(time.Second)\<close> is \<open>10^9\<close>.\<close>

definition int64_quo :: "int64 \<Rightarrow> int64 \<Rightarrow> int64" where
  "int64_quo a b = word_of_int (sint a sdiv sint b)"

definition time_Second :: int64 where
  "time_Second = 1000000000"

subsection \<open>Ingest\<close>

definition getName :: "'f Envelope \<Rightarrow> panic + string" where
  "getName envelope =
     (if GetEventType envelope = Envelope_ValueMetric
        then Inr (GetOrigin envelope @ ''.'' @ ValueMetric_GetName (GetValueMetric envelope))
      else if GetEventType envelope = Envelope_CounterEvent
        then Inr (GetOrigin envelope @ ''.'' @ CounterEvent_GetName (GetCounterEvent envelope))
      else Inl (Panic ''Unknown event type''))"

definition getValue :: "'f float64_ops \<Rightarrow> 'f Envelope \<Rightarrow> panic + 'f" where
  "getValue F envelope =
     (if GetEventType envelope = Envelope_ValueMetric
        then Inr (ValueMetric_GetValue F (GetValueMetric envelope))
      else if GetEventType envelope = Envelope_CounterEvent
        then Inr (float64_of_uint64 F (CounterEvent_GetTotal (GetCounterEvent envelope)))
      else Inl (Panic ''Unknown event type''))"

definition appendTagIfNotEmpty :: "string list \<Rightarrow> string \<Rightarrow> string \<Rightarrow> string list" where
  "appendTagIfNotEmpty tgs key value =
     (if value \<noteq> [] then tgs @ [key @ ''='' @ value] else tgs)"

definition getTags :: "'f Envelope \<Rightarrow> string list" where
  "getTags envelope =
     (let tgs = [];
          tgs = appendTagIfNotEmpty tgs ''deployment'' (GetDeployment envelope);
          tgs = appendTagIfNotEmpty tgs ''job'' (GetJob envelope);
          tgs = appendTagIfNotEmpty tgs ''index'' (GetIndex envelope);
          tgs = appendTagIfNotEmpty tgs ''ip'' (GetIp envelope)
      in tgs)"

text \<open>Reading a Go map at a missing key gives the zero value of the element type.\<close>

definition map_index :: "(metricKey \<rightharpoonup> 'f metricValue) \<Rightarrow> metricKey \<Rightarrow> 'f metricValue" where
  "map_index m key = (case m key of None \<Rightarrow> \<lparr>tags = [], points = []\<rparr> | Some mVal \<Rightarrow> mVal)"

definition AddMetric :: "'f float64_ops \<Rightarrow> 'f Client \<Rightarrow> 'f Envelope \<Rightarrow> panic + 'f Client" where
  "AddMetric F c0 envelope =
     (let c = c0\<lparr>totalMessagesReceived := totalMessagesReceived c0 + 1\<rparr> in
      if GetEventType envelope \<noteq> Envelope_ValueMetric \<and> GetEventType envelope \<noteq> Envelope_CounterEvent
      then Inr c
      else
        case getName envelope of
          Inl p \<Rightarrow> Inl p
        | Inr nm \<Rightarrow>
            let key = \<lparr>eventType = GetEventType envelope, name = nm,
                       deployment = GetDeployment envelope, job = GetJob envelope,
                       index = GetIndex envelope, ip = GetIp envelope\<rparr>;
                mVal = map_index (metricPoints c) key
            in case getValue F envelope of
                 Inl p \<Rightarrow> Inl p
               | Inr v \<Rightarrow>
                   let mVal = mVal\<lparr>tags := getTags envelope\<rparr>;
                       mVal = mVal\<lparr>points := points mVal @
                                [\<lparr>Timestamp = int64_quo (GetTimestamp envelope) time_Second, Value = v\<rparr>]\<rparr>
                   in Inr (c\<lparr>metricPoints := (metricPoints c)(key \<mapsto> mVal)\<rparr>))"

subsection \<open>Internal metrics\<close>

definition addInternalMetric :: "'f float64_ops \<Rightarrow> int64 \<Rightarrow> string \<Rightarrow> uint64 \<Rightarrow> 'f Client \<Rightarrow> 'f Client" where
  "addInternalMetric F now nm v c =
     (let key = \<lparr>eventType = 0, name = nm, deployment = c_deployment c,
                 job = [], index = [], ip = c_ip c\<rparr>;
          point = \<lparr>Timestamp = now, Value = float64_of_uint64 F v\<rparr>;
          mValue = \<lparr>tags = [''ip='' @ c_ip c, ''deployment='' @ c_deployment c],
                    points = [point]\<rparr>
      in c\<lparr>metricPoints := (metricPoints c)(key \<mapsto> mValue)\<rparr>)"

definition AlertSlowConsumerError :: "'f float64_ops \<Rightarrow> int64 \<Rightarrow> 'f Client \<Rightarrow> 'f Client" where
  "AlertSlowConsumerError F now c = addInternalMetric F now ''slowConsumerAlert'' 1 c"

definition containsSlowConsumerAlert :: "'f Client \<Rightarrow> bool" where
  "containsSlowConsumerAlert c =
     (let key = \<lparr>eventType = 0, name = ''slowConsumerAlert'', deployment = c_deployment c,
                 job = [], index = [], ip = c_ip c\<rparr>
      in case metricPoints c key of None \<Rightarrow> False | Some _ \<Rightarrow> True)"

text \<open>
  \<open>populateInternalMetrics\<close> calls \<open>addInternalMetric\<close> two or three times, and each call
  reads the clock: \<open>now1\<close>, \<open>now2\<close> and \<open>now3\<close> are the three readings, in call order.
\<close>

fun populateInternalMetrics :: "'f float64_ops \<Rightarrow> int64 \<times> int64 \<times> int64 \<Rightarrow> 'f Client \<Rightarrow> 'f Client" where
  "populateInternalMetrics F (now1, now2, now3) c0 =
     (let c = addInternalMetric F now1 ''totalMessagesReceived'' (totalMessagesReceived c0) c0;
          c = addInternalMetric F now2 ''totalMetricsSent'' (totalMetricsSent c) c
      in if \<not> containsSlowConsumerAlert c
         then addInternalMetric F now3 ''slowConsumerAlert'' 0 c
         else c)"

declare populateInternalMetrics.simps [simp del]

subsection \<open>Serialization\<close>

text \<open>
  \<open>formatTags\<close> and \<open>formatValues\<close> are \<open>for index, x := range xs\<close> loops that build a
  string; the loop state is the index and the string built so far.
\<close>

fun formatTags_loop :: "nat \<Rightarrow> string list \<Rightarrow> string \<Rightarrow> string" where
  "formatTags_loop i [] newTags = newTags"
| "formatTags_loop i (tag # rest) newTags =
     formatTags_loop (i + 1) rest ((if i > 0 then newTags @ '','' else newTags) @ tag)"

definition formatTags :: "string list \<Rightarrow> string" where
  "formatTags tgs = formatTags_loop 0 tgs []"

fun formatValues_loop :: "'f float64_ops \<Rightarrow> nat \<Rightarrow> 'f Point list \<Rightarrow> string \<Rightarrow> string" where
  "formatValues_loop F i [] newPoints = newPoints"
| "formatValues_loop F i (point # rest) newPoints =
     formatValues_loop F (i + 1) rest
       ((if i > 0 then newPoints @ '','' else newPoints) @ ''value='' @ FormatFloat F (Value point))"

definition formatValues :: "'f float64_ops \<Rightarrow> 'f Point list \<Rightarrow> string" where
  "formatValues F pts = formatValues_loop F 0 pts []"

definition formatTimestamp :: "int64 \<Rightarrow> 'f Point list \<Rightarrow> string" where
  "formatTimestamp now pts =
     (if length pts > 0
      then FormatInt (Timestamp (pts ! 0) * 1000 * 1000 * 1000)
      else FormatInt (now * 1000 * 1000 * 1000))"

text \<open>
  One pass of the body of the \<open>range\<close> loop of \<open>formatMetrics\<close>: the seven writes to the
  buffer for the entry at \<open>key\<close>. \<open>range\<close> only yields keys of the map, so a key of
  \<open>order\<close> that is not in the map writes nothing. \<open>now key\<close> is the reading of the clock
  that \<open>formatTimestamp\<close> would take while the loop is at \<open>key\<close>.
\<close>

definition formatMetrics_body :: "'f float64_ops \<Rightarrow> (metricKey \<Rightarrow> int64) \<Rightarrow> 'f Client \<Rightarrow> string \<Rightarrow> metricKey \<Rightarrow> string" where
  "formatMetrics_body F now c buffer key =
     (case metricPoints c key of
        None \<Rightarrow> buffer
      | Some mVal \<Rightarrow>
          buffer @ (prefix c @ name key) @ '','' @ formatTags (tags mVal) @ '' '' @
          formatValues F (points mVal) @ '' '' @ formatTimestamp (now key) (points mVal) @ [CHR 0x0A])"

definition formatMetrics :: "'f float64_ops \<Rightarrow> (metricKey \<Rightarrow> int64) \<Rightarrow> metricKey list \<Rightarrow> 'f Client \<Rightarrow> string \<times> uint64" where
  "formatMetrics F now order c =
     (foldl (formatMetrics_body F now c) [] order, word_of_nat (card (dom (metricPoints c))))"

subsection \<open>Flush\<close>

definition seriesURL :: "'f Client \<Rightarrow> string" where
  "seriesURL c = url c @ ''/write?db='' @ database c"

text \<open>
  \<open>PostMetrics\<close> sends one request and reads one outcome. The error of
  \<open>http.NewRequest\<close> is dropped by the code (the next assignment overwrites it); the model
  starts from a request that could be built and takes what \<open>Do\<close> gives back as the
  argument \<open>outcome\<close>. The result holds the request that went out (URL and body), the
  returned error (\<open>None\<close> for \<open>nil\<close>) and the client after the call. \<open>nows\<close> are the
  clock readings of \<open>populateInternalMetrics\<close>, \<open>fnow\<close> those of \<open>formatMetrics\<close>.
\<close>

record 'f posted =
  request_url :: string
  request_body :: string
  returned :: "string option"
  client :: "'f Client"

definition PostMetrics :: "'f float64_ops \<Rightarrow> int64 \<times> int64 \<times> int64 \<Rightarrow> (metricKey \<Rightarrow> int64) \<Rightarrow> metricKey list \<Rightarrow> http_outcome \<Rightarrow> 'f Client \<Rightarrow> 'f posted" where
  "PostMetrics F nows fnow order outcome c0 =
     (let u = seriesURL c0;
          c = populateInternalMetrics F nows c0;
          (seriesBytes, metricsCount) = formatMetrics F fnow order c
      in case outcome of
           DoError err \<Rightarrow>
             \<lparr>request_url = u, request_body = seriesBytes, returned = Some err, client = c\<rparr>
         | DoResponse StatusCode Status \<Rightarrow>
             if StatusCode \<ge> 300 \<or> StatusCode < 200
             then \<lparr>request_url = u, request_body = seriesBytes,
                   returned = Some (''InfluxDB request returned HTTP response: '' @ Status),
                   client = c\<rparr>
             else \<lparr>request_url = u, request_body = seriesBytes, returned = None,
                   client = c\<lparr>totalMetricsSent := totalMetricsSent c + metricsCount,
                              metricPoints := Map.empty\<rparr>\<rparr>)"

subsection \<open>Reference formulations of the wire format\<close>

text \<open>
  The line written for one entry, as the format is described: the prefix and the name,
  a comma, the tags joined by commas, a space, one \<open>value=\<close> field per point joined by
  commas, a space, the timestamp in nanoseconds and a newline. \<open>comma_join\<close> is the
  join, \<open>entry_line\<close> the line of an entry, \<open>internal_line\<close> the line of an internal
  metric; \<open>reading\<close> picks the clock reading that \<open>populateInternalMetrics\<close> used for
  the internal metric of a given name and \<open>internal_value\<close> the counter it reports.
\<close>

fun comma_join :: "string list \<Rightarrow> string" where
  "comma_join [] = []"
| "comma_join [x] = x"
| "comma_join (x # y # zs) = x @ '','' @ comma_join (y # zs)"

definition value_field :: "'f float64_ops \<Rightarrow> 'f Point \<Rightarrow> string" where
  "value_field F p = ''value='' @ FormatFloat F (Value p)"

definition entry_line :: "'f float64_ops \<Rightarrow> int64 \<Rightarrow> string \<Rightarrow> metricKey \<Rightarrow> 'f metricValue \<Rightarrow> string" where
  "entry_line F now pre key mVal =
     pre @ name key @ '','' @ comma_join (tags mVal) @ '' '' @
     comma_join (map (value_field F) (points mVal)) @ '' '' @
     FormatInt ((case points mVal of [] \<Rightarrow> now | p # _ \<Rightarrow> Timestamp p) * 1000000000) @ [CHR 0x0A]"

definition reading :: "int64 \<times> int64 \<times> int64 \<Rightarrow> string \<Rightarrow> int64" where
  "reading nows nm =
     (case nows of (now1, now2, now3) \<Rightarrow>
        if nm = ''totalMessagesReceived'' then now1
        else if nm = ''totalMetricsSent'' then now2
        else now3)"

definition internal_value :: "'f Client \<Rightarrow> string \<Rightarrow> uint64" where
  "internal_value c nm =
     (if nm = ''totalMessagesReceived'' then totalMessagesReceived c
      else if nm = ''totalMetricsSent'' then totalMetricsSent c
      else 0)"

definition internal_line :: "'f float64_ops \<Rightarrow> int64 \<Rightarrow> 'f Client \<Rightarrow> string \<Rightarrow> string" where
  "internal_line F now c nm =
     prefix c @ nm @ '',ip='' @ c_ip c @ '',deployment='' @ c_deployment c @
     '' value='' @ FormatFloat F (float64_of_uint64 F (internal_value c nm)) @
     '' '' @ FormatInt (now * 1000000000) @ [CHR 0x0A]"

subsection \<open>Identities\<close>

text \<open>
  \<open>is_data\<close> holds of the envelopes \<open>AddMetric\<close> stores, \<open>envelope_key\<close> is the key it
  builds for them and \<open>observation\<close> the point it appends. \<open>key_tags\<close> derives tags from
  the fields of a key. \<open>internal_key\<close> and \<open>internal_entry\<close> are the key and the value
  that \<open>addInternalMetric\<close> writes.
\<close>

definition is_data :: "'f Envelope \<Rightarrow> bool" where
  "is_data e \<longleftrightarrow> GetEventType e = Envelope_ValueMetric \<or> GetEventType e = Envelope_CounterEvent"

definition envelope_key :: "'f Envelope \<Rightarrow> metricKey" where
  "envelope_key e =
     \<lparr>eventType = GetEventType e,
      name = GetOrigin e @ ''.'' @
             (if GetEventType e = Envelope_ValueMetric
              then ValueMetric_GetName (GetValueMetric e)
              else CounterEvent_GetName (GetCounterEvent e)),
      deployment = GetDeployment e, job = GetJob e, index = GetIndex e, ip = GetIp e\<rparr>"

definition observation :: "'f Envelope \<Rightarrow> 'f \<Rightarrow> 'f Point" where
  "observation e v = \<lparr>Timestamp = int64_quo (GetTimestamp e) time_Second, Value = v\<rparr>"

definition key_tags :: "metricKey \<Rightarrow> string list" where
  "key_tags key =
     map (\<lambda>(k, v). k @ ''='' @ v)
       (filter (\<lambda>(k, v). v \<noteq> [])
          [(''deployment'', deployment key), (''job'', job key),
           (''index'', index key), (''ip'', ip key)])"

definition internal_key :: "'f Client \<Rightarrow> string \<Rightarrow> metricKey" where
  "internal_key c nm =
     \<lparr>eventType = 0, name = nm, deployment = c_deployment c, job = [], index = [], ip = c_ip c\<rparr>"

definition internal_entry :: "'f float64_ops \<Rightarrow> int64 \<Rightarrow> 'f Client \<Rightarrow> uint64 \<Rightarrow> 'f metricValue" where
  "internal_entry F now c v =
     \<lparr>tags = [''ip='' @ c_ip c, ''deployment='' @ c_deployment c],
      points = [\<lparr>Timestamp = now, Value = float64_of_uint64 F v\<rparr>]\<rparr>"

subsection \<open>Sequences of calls\<close>

text \<open>
  The client is driven by calls of \<open>AddMetric\<close>, \<open>AlertSlowConsumerError\<close> and
  \<open>PostMetrics\<close>; \<open>populateInternalMetrics\<close> on its own is included as a fourth
  operation. \<open>run\<close> executes a list of them and stops at a panic. A window ends with a
  flush that the transport accepted (\<open>ends_window\<close>). \<open>alert_is F c v\<close> says that the
  slow-consumer entry exists and holds the single value \<open>v\<close>; \<open>alert_unset\<close> that it is
  absent or holds 0; \<open>no_empty_entry\<close> that every entry has a point.
\<close>

fun AddMetric_seq :: "'f float64_ops \<Rightarrow> 'f Client \<Rightarrow> 'f Envelope list \<Rightarrow> panic + 'f Client" where
  "AddMetric_seq F c [] = Inr c"
| "AddMetric_seq F c (e # es) =
     (case AddMetric F c e of Inl p \<Rightarrow> Inl p | Inr c' \<Rightarrow> AddMetric_seq F c' es)"

definition lookup_result :: "panic + 'f Client \<Rightarrow> metricKey \<Rightarrow> 'f metricValue option" where
  "lookup_result r key = (case r of Inl _ \<Rightarrow> None | Inr c \<Rightarrow> metricPoints c key)"

datatype 'f operation =
    Ingest "'f Envelope"
  | Alert int64
  | Snapshot "int64 \<times> int64 \<times> int64"
  | Flush "int64 \<times> int64 \<times> int64" "metricKey \<Rightarrow> int64" "metricKey list" http_outcome

fun step :: "'f float64_ops \<Rightarrow> 'f Client \<Rightarrow> 'f operation \<Rightarrow> panic + 'f Client" where
  "step F c (Ingest e) = AddMetric F c e"
| "step F c (Alert now) = Inr (AlertSlowConsumerError F now c)"
| "step F c (Snapshot nows) = Inr (populateInternalMetrics F nows c)"
| "step F c (Flush nows fnow order outcome) = Inr (client (PostMetrics F nows fnow order outcome c))"

fun run :: "'f float64_ops \<Rightarrow> 'f Client \<Rightarrow> 'f operation list \<Rightarrow> panic + 'f Client" where
  "run F c [] = Inr c"
| "run F c (op # ops) = (case step F c op of Inl p \<Rightarrow> Inl p | Inr c' \<Rightarrow> run F c' ops)"

definition transport_ok :: "http_outcome \<Rightarrow> bool" where
  "transport_ok outcome =
     (case outcome of DoError _ \<Rightarrow> False
      | DoResponse StatusCode _ \<Rightarrow> \<not> (StatusCode \<ge> 300 \<or> StatusCode < 200))"

fun ends_window :: "'f operation \<Rightarrow> bool" where
  "ends_window (Flush nows fnow order outcome) = transport_ok outcome"
| "ends_window _ = False"

fun is_alert :: "'f operation \<Rightarrow> bool" where
  "is_alert (Alert now) = True"
| "is_alert _ = False"

definition alert_is :: "'f float64_ops \<Rightarrow> 'f Client \<Rightarrow> uint64 \<Rightarrow> bool" where
  "alert_is F c v =
     (case metricPoints c (internal_key c ''slowConsumerAlert'') of
        None \<Rightarrow> False
      | Some mVal \<Rightarrow> map Value (points mVal) = [float64_of_uint64 F v])"

definition alert_unset :: "'f float64_ops \<Rightarrow> 'f Client \<Rightarrow> bool" where
  "alert_unset F c =
     (case metricPoints c (internal_key c ''slowConsumerAlert'') of
        None \<Rightarrow> True
      | Some mVal \<Rightarrow> map Value (points mVal) = [float64_of_uint64 F 0])"

definition no_empty_entry :: "'f Client \<Rightarrow> bool" where
  "no_empty_entry c \<longleftrightarrow> (\<forall>key mVal. metricPoints c key = Some mVal \<longrightarrow> points mVal \<noteq> [])"

subsection \<open>Example values\<close>

text \<open>
  Concrete inputs on which the functions are evaluated. \<open>tenths_ops\<close> is a small
  instance of the float operations: a value is an integer number of tenths, so that
  35 stands for 3.5 and prints as \<open>3.5\<close>.
\<close>

definition tenths_ops :: "int float64_ops" where
  "tenths_ops =
     \<lparr>float64_zero = 0,
      float64_of_uint64 = (\<lambda>u. 10 * uint u),
      FormatFloat = (\<lambda>x. (if x < 0 then ''-'' else []) @ decimal (nat \<bar>x\<bar> div 10) @
                      (if \<bar>x\<bar> mod 10 = 0 then [] else CHR ''.'' # [digit_char (nat \<bar>x\<bar> mod 10)]))\<rparr>"

definition sample_key :: metricKey where
  "sample_key = \<lparr>eventType = 6, name = ''name'', deployment = ''prod'', job = [], index = [], ip = ''1.2.3.4''\<rparr>"

definition sample_client :: "int Client" where
  "sample_client = New ''http://influx'' ''metrics'' ''u'' ''p'' ''app.'' ''prod'' ''1.2.3.4''"

definition sample_key2 :: metricKey where
  "sample_key2 = \<lparr>eventType = 7, name = ''hits'', deployment = ''prod'', job = [], index = [], ip = []\<rparr>"

definition sample_entries :: "metricKey \<rightharpoonup> int metricValue" where
  "sample_entries = Map.empty
     (sample_key \<mapsto> \<lparr>tags = [''deployment=prod'', ''ip=1.2.3.4''],
                      points = [\<lparr>Timestamp = 1000, Value = 35\<rparr>, \<lparr>Timestamp = 1001, Value = 40\<rparr>]\<rparr>,
      sample_key2 \<mapsto> \<lparr>tags = [''deployment=prod''], points = [\<lparr>Timestamp = 2, Value = 40\<rparr>]\<rparr>)"

definition env_A :: "int Envelope" where
  "env_A = \<lparr>GetOrigin = ''router'', GetEventType = 6, GetTimestamp = 1500000000,
            GetDeployment = ''prod'', GetJob = ''x'', GetIndex = ''0'', GetIp = ''1.2.3.4'',
            GetValueMetric = Some \<lparr>vm_Name = ''latency'', vm_Value = 35\<rparr>,
            GetCounterEvent = None\<rparr>"

definition env_A2 :: "int Envelope" where
  "env_A2 = env_A\<lparr>GetTimestamp := 5500000000, GetValueMetric := Some \<lparr>vm_Name = ''latency'', vm_Value = 40\<rparr>\<rparr>"

definition env_B :: "int Envelope" where
  "env_B = env_A\<lparr>GetJob := []\<rparr>"

definition env_bare :: "int Envelope" where
  "env_bare = env_A\<lparr>GetValueMetric := None\<rparr>"

definition key_A :: metricKey where
  "key_A = \<lparr>eventType = 6, name = ''router.latency'', deployment = ''prod'', job = ''x'',
            index = ''0'', ip = ''1.2.3.4''\<rparr>"

definition sample_flushed :: "int Client" where
  "sample_flushed =
     client (PostMetrics tenths_ops (9, 9, 9) (\<lambda>_. 9) [] (DoResponse 204 ''204 No Content'')
       (sample_client\<lparr>metricPoints := sample_entries\<rparr>))"

definition sample_order :: "metricKey list" where
  "sample_order =
     [internal_key sample_client ''totalMetricsSent'',
      internal_key sample_client ''slowConsumerAlert'',
      internal_key sample_client ''totalMessagesReceived'']"

definition ingested_alert_key :: metricKey where
  "ingested_alert_key =
     \<lparr>eventType = Envelope_ValueMetric, name = ''slowConsumerAlert'', deployment = ''prod'',
      job = [], index = [], ip = ''1.2.3.4''\<rparr>"

definition ingested_alert_client :: "int Client" where
  "ingested_alert_client =
     sample_client\<lparr>metricPoints := Map.empty(ingested_alert_key \<mapsto>
       \<lparr>tags = [''deployment=prod'', ''ip=1.2.3.4''], points = [\<lparr>Timestamp = 3, Value = 35\<rparr>]\<rparr>)\<rparr>"

section \<open>Properties\<close>

subsection \<open>Serialization\<close>

lemma FormatInt_example: "FormatInt (1000 * 1000 * 1000 * 1000) = ''1000000000000''"
  by (simp add: FormatInt_def decimal.simps digit_char_def)

lemma distinct_singleton_set: "distinct xs \<Longrightarrow> set xs = {k} \<Longrightarrow> xs = [k]"
proof (cases xs)
  case Nil
  assume "set xs = {k}" with Nil show ?thesis by simp
next
  case (Cons a as)
  assume d: "distinct xs" and s: "set xs = {k}"
  from s Cons have a: "a = k" by auto
  have "as = []"
  proof (cases as)
    case Nil then show ?thesis .
  next
    case (Cons b bs)
    with s \<open>xs = a # as\<close> have "b = k" by auto
    with d a Cons \<open>xs = a # as\<close> show ?thesis by simp
  qed
  with a Cons show ?thesis by simp
qed

lemma comma_join_Cons: "comma_join (x # xs) = x @ concat (map (\<lambda>t. '','' @ t) xs)"
  by (induction xs arbitrary: x) simp_all

lemma formatTags_loop_pos:
  "0 < i \<Longrightarrow> formatTags_loop i tgs acc = acc @ concat (map (\<lambda>t. '','' @ t) tgs)"
  by (induction tgs arbitrary: i acc) simp_all

lemma formatTags_comma_join: "formatTags tgs = comma_join tgs"
  by (cases tgs) (simp_all add: formatTags_def formatTags_loop_pos comma_join_Cons)

lemma formatValues_loop_pos:
  "0 < i \<Longrightarrow> formatValues_loop F i pts acc = acc @ concat (map (\<lambda>p. '','' @ value_field F p) pts)"
  by (induction pts arbitrary: i acc) (simp_all add: value_field_def)

lemma formatValues_comma_join: "formatValues F pts = comma_join (map (value_field F) pts)"
proof (cases pts)
  case Nil
  then show ?thesis by (simp add: formatValues_def)
next
  case (Cons p ps)
  have "formatValues F (p # ps) = value_field F p @ concat (map (\<lambda>p. '','' @ value_field F p) ps)"
    by (simp add: formatValues_def formatValues_loop_pos) (simp add: value_field_def)
  also have "\<dots> = comma_join (map (value_field F) (p # ps))"
    by (simp add: comma_join_Cons comp_def)
  finally show ?thesis using Cons by simp
qed

lemma formatTimestamp_cases:
  "formatTimestamp now pts = FormatInt ((case pts of [] \<Rightarrow> now | p # _ \<Rightarrow> Timestamp p) * 1000000000)"
  by (cases pts) (simp_all add: formatTimestamp_def mult.assoc)

lemma formatMetrics_body_line:
  "metricPoints c key = Some mVal \<Longrightarrow>
   formatMetrics_body F now c buffer key = buffer @ entry_line F (now key) (prefix c) key mVal"
  by (simp add: formatMetrics_body_def entry_line_def formatTags_comma_join
      formatValues_comma_join formatTimestamp_cases)

lemma foldl_formatMetrics_body:
  "set order \<subseteq> dom (metricPoints c) \<Longrightarrow>
   foldl (formatMetrics_body F now c) buffer order =
   buffer @ concat (map (\<lambda>key. entry_line F (now key) (prefix c) key (map_index (metricPoints c) key)) order)"
proof (induction order arbitrary: buffer)
  case Nil
  then show ?case by simp
next
  case (Cons key rest)
  then obtain mVal where m: "metricPoints c key = Some mVal" by auto
  from Cons.prems have "set rest \<subseteq> dom (metricPoints c)" by simp
  from Cons.IH [OF this] m show ?case
    by (simp add: formatMetrics_body_line map_index_def)
qed

text \<open>
  Claim C2. \<open>formatMetrics\<close> writes one line per entry of the map and nothing else: the
  output is the concatenation, in visiting order, of \<open>entry_line\<close> for each key, where
  the line of an entry with N points has N comma-joined \<open>value=\<close> fields in point
  order and one timestamp, the first point's. The returned count is the number of
  entries (the number of lines), whatever the number of points.
\<close>
theorem C2_one_line_per_entry:
  assumes "distinct order" and "set order = dom (metricPoints c)"
  shows "formatMetrics F now order c =
           (concat (map (\<lambda>key. entry_line F (now key) (prefix c) key (map_index (metricPoints c) key)) order),
            word_of_nat (length order))
         \<and> length order = card (dom (metricPoints c))"
proof -
  have "card (dom (metricPoints c)) = length order"
    using assms distinct_card [of order] by simp
  moreover have "set order \<subseteq> dom (metricPoints c)"
    using assms(2) by simp
  ultimately show ?thesis
    by (simp add: formatMetrics_def foldl_formatMetrics_body)
qed

text \<open>
  Claim C1. A client with prefix \<open>app.\<close> whose map holds one entry, named \<open>name\<close>, with
  tags \<open>ip=1.2.3.4\<close>, \<open>deployment=prod\<close> and the single point \<open>(1000, v)\<close>, where
  \<open>FormatFloat\<close> prints \<open>v\<close> as \<open>3.5\<close>, serializes to the one line
  \<open>app.name,ip=1.2.3.4,deployment=prod value=3.5 1000000000000\<close> followed by a newline,
  with record count 1, in whatever order \<open>range\<close> visits the map.
\<close>
theorem C1_single_entry_line:
  assumes "name key = ''name''" and "prefix c = ''app.''"
    and "metricPoints c = Map.empty(key \<mapsto>
           \<lparr>tags = [''ip=1.2.3.4'', ''deployment=prod''], points = [\<lparr>Timestamp = 1000, Value = v\<rparr>]\<rparr>)"
    and "FormatFloat F v = ''3.5''"
    and "distinct order" and "set order = dom (metricPoints c)"
  shows "formatMetrics F now order c =
           (''app.name,ip=1.2.3.4,deployment=prod value=3.5 1000000000000'' @ [CHR 0x0A], 1)"
proof -
  have o: "order = [key]"
    using assms(3,5,6) by (simp add: distinct_singleton_set)
  show ?thesis
    using assms(1-4) FormatInt_example
    by (simp add: o formatMetrics_def formatMetrics_body_def formatTags_def formatValues_def
        formatTimestamp_def)
qed

lemma FormatFloat_tenths_35: "FormatFloat tenths_ops 35 = ''3.5''"
  by (simp add: tenths_ops_def decimal.simps digit_char_def)

lemma FormatFloat_tenths_40: "FormatFloat tenths_ops 40 = ''4''"
  by (simp add: tenths_ops_def decimal.simps digit_char_def)

theorem C1_single_entry_line_witness:
  "formatMetrics tenths_ops (\<lambda>_. 0) [sample_key]
     (sample_client\<lparr>metricPoints := Map.empty(sample_key \<mapsto>
        \<lparr>tags = [''ip=1.2.3.4'', ''deployment=prod''], points = [\<lparr>Timestamp = 1000, Value = 35\<rparr>]\<rparr>)\<rparr>)
   = (''app.name,ip=1.2.3.4,deployment=prod value=3.5 1000000000000'' @ [CHR 0x0A], 1)"
  using C1_single_entry_line [of sample_key
      "sample_client\<lparr>metricPoints := Map.empty(sample_key \<mapsto>
        \<lparr>tags = [''ip=1.2.3.4'', ''deployment=prod''], points = [\<lparr>Timestamp = 1000, Value = 35\<rparr>]\<rparr>)\<rparr>"
      35 tenths_ops "[sample_key]" "\<lambda>_. 0"]
  by (simp add: sample_key_def sample_client_def New_def FormatFloat_tenths_35)

lemma FormatInt_2e9: "FormatInt 2000000000 = ''2000000000''"
  by (simp add: FormatInt_def decimal.simps digit_char_def)

lemma FormatInt_1e12: "FormatInt 1000000000000 = ''1000000000000''"
  by (simp add: FormatInt_def decimal.simps digit_char_def)

theorem C2_one_line_per_entry_witness:
  "formatMetrics tenths_ops (\<lambda>_. 0) [sample_key2, sample_key] (sample_client\<lparr>metricPoints := sample_entries\<rparr>) =
     (''app.hits,deployment=prod value=4 2000000000'' @ [CHR 0x0A] @
      ''app.name,deployment=prod,ip=1.2.3.4 value=3.5,value=4 1000000000000'' @ [CHR 0x0A], 2)"
  using C2_one_line_per_entry [of "[sample_key2, sample_key]" "sample_client\<lparr>metricPoints := sample_entries\<rparr>" tenths_ops "\<lambda>_. 0"]
  by (simp add: sample_key_def sample_key2_def sample_client_def New_def sample_entries_def
      entry_line_def value_field_def map_index_def FormatFloat_tenths_35 FormatFloat_tenths_40
      FormatInt_2e9 FormatInt_1e12 insert_commute)

subsection \<open>Ingest\<close>

lemma getValue_data:
  "is_data e \<Longrightarrow> \<exists>v. getValue F e = Inr v"
  by (auto simp: is_data_def getValue_def)

lemma getName_data:
  "is_data e \<Longrightarrow> getName e = Inr (name (envelope_key e))"
  by (auto simp: is_data_def getName_def envelope_key_def Envelope_ValueMetric_def
      Envelope_CounterEvent_def)

lemma AddMetric_other:
  "\<not> is_data e \<Longrightarrow> AddMetric F c e = Inr (c\<lparr>totalMessagesReceived := totalMessagesReceived c + 1\<rparr>)"
  by (simp add: AddMetric_def is_data_def)

lemma metricValue_overwrite:
  "(r :: 'f metricValue)\<lparr>tags := a, points := b\<rparr> = \<lparr>tags = a, points = b\<rparr>"
  by (cases r) simp

lemma AddMetric_data:
  assumes "is_data e" and "getValue F e = Inr v"
  shows "AddMetric F c e =
           Inr (c\<lparr>totalMessagesReceived := totalMessagesReceived c + 1,
                  metricPoints := (metricPoints c)(envelope_key e \<mapsto>
                     \<lparr>tags = getTags e,
                      points = points (map_index (metricPoints c) (envelope_key e)) @ [observation e v]\<rparr>)\<rparr>)"
proof -
  have k: "\<lparr>eventType = GetEventType e, name = name (envelope_key e),
            deployment = GetDeployment e, job = GetJob e, index = GetIndex e, ip = GetIp e\<rparr>
           = envelope_key e"
    by (simp add: envelope_key_def)
  have n: "\<not> (GetEventType e \<noteq> Envelope_ValueMetric \<and> GetEventType e \<noteq> Envelope_CounterEvent)"
    using assms(1) by (simp add: is_data_def)
  show ?thesis
    unfolding AddMetric_def Let_def
    by (simp only: n if_False getName_data [OF assms(1)] assms(2) sum.case k)
       (simp add: observation_def metricValue_overwrite)
qed

lemma AddMetric_total: "\<exists>c'. AddMetric F c e = Inr c'"
proof (cases "is_data e")
  case True
  then obtain v where "getValue F e = Inr v" using getValue_data by blast
  with True show ?thesis by (simp add: AddMetric_data)
next
  case False
  then show ?thesis by (simp add: AddMetric_other)
qed

lemma getTags_key_tags: "getTags e = key_tags (envelope_key e)"
  by (simp add: getTags_def key_tags_def appendTagIfNotEmpty_def envelope_key_def)

lemma AddMetric_seq_same_key:
  assumes "\<forall>e\<in>set es. is_data e \<and> envelope_key e = key"
  shows "\<exists>c' ps. AddMetric_seq F c es = Inr c' \<and>
           points (map_index (metricPoints c') key) = points (map_index (metricPoints c) key) @ ps \<and>
           list_all2 (\<lambda>e p. getValue F e = Inr (Value p) \<and> p = observation e (Value p)) es ps \<and>
           (es \<noteq> [] \<longrightarrow> map_option tags (metricPoints c' key) = Some (getTags (last es)))"
  using assms
proof (induction es arbitrary: c)
  case Nil
  then show ?case by simp
next
  case (Cons e es)
  from Cons.prems have d: "is_data e" and k: "envelope_key e = key" by simp_all
  from d obtain v where v: "getValue F e = Inr v" using getValue_data by blast
  define c1 where "c1 = c\<lparr>totalMessagesReceived := totalMessagesReceived c + 1,
      metricPoints := (metricPoints c)(key \<mapsto>
        \<lparr>tags = getTags e, points = points (map_index (metricPoints c) key) @ [observation e v]\<rparr>)\<rparr>"
  have step: "AddMetric F c e = Inr c1"
    using AddMetric_data [OF d v, of c] k by (simp add: c1_def)
  have p1: "points (map_index (metricPoints c1) key) =
            points (map_index (metricPoints c) key) @ [observation e v]"
    by (simp add: c1_def map_index_def)
  have t1: "map_option tags (metricPoints c1 key) = Some (getTags e)"
    by (simp add: c1_def)
  from Cons.prems have rest: "\<forall>e\<in>set es. is_data e \<and> envelope_key e = key" by simp
  from Cons.IH [OF rest, of c1] obtain c' ps where
    r: "AddMetric_seq F c1 es = Inr c'" and
    p: "points (map_index (metricPoints c') key) = points (map_index (metricPoints c1) key) @ ps" and
    a: "list_all2 (\<lambda>e p. getValue F e = Inr (Value p) \<and> p = observation e (Value p)) es ps" and
    t: "es \<noteq> [] \<longrightarrow> map_option tags (metricPoints c' key) = Some (getTags (last es))"
    by blast
  have "AddMetric_seq F c (e # es) = Inr c'"
    using step r by simp
  moreover have "points (map_index (metricPoints c') key) =
      points (map_index (metricPoints c) key) @ (observation e v # ps)"
    using p p1 by simp
  moreover have "list_all2 (\<lambda>e p. getValue F e = Inr (Value p) \<and> p = observation e (Value p))
      (e # es) (observation e v # ps)"
    using a v by (simp add: observation_def)
  moreover have "map_option tags (metricPoints c' key) = Some (getTags (last (e # es)))"
  proof (cases es)
    case Nil
    with r t1 show ?thesis by simp
  next
    case (Cons e' es')
    with t show ?thesis by simp
  qed
  ultimately show ?case by blast
qed

lemma int64_quo_examples:
  "int64_quo 1500000000 time_Second = 1"
  "int64_quo 5500000000 time_Second = 5"
  by (simp_all add: int64_quo_def time_Second_def signed_divide_int_def)

lemma envelope_key_A: "envelope_key env_A = key_A" "envelope_key env_A2 = key_A"
  by (simp_all add: envelope_key_def env_A_def env_A2_def key_A_def Envelope_ValueMetric_def
      ValueMetric_GetName_def)

lemma is_data_A: "is_data env_A" "is_data env_A2" "is_data env_B" "is_data env_bare"
  by (simp_all add: is_data_def env_A_def env_A2_def env_B_def env_bare_def Envelope_ValueMetric_def)

lemma getValue_A: "getValue tenths_ops env_A = Inr 35" "getValue tenths_ops env_A2 = Inr 40"
  by (simp_all add: getValue_def env_A_def env_A2_def Envelope_ValueMetric_def ValueMetric_GetValue_def)

lemma getTags_A: "getTags env_A = [''deployment=prod'', ''job=x'', ''index=0'', ''ip=1.2.3.4'']"
  "getTags env_A2 = [''deployment=prod'', ''job=x'', ''index=0'', ''ip=1.2.3.4'']"
  by (simp_all add: getTags_def appendTagIfNotEmpty_def env_A_def env_A2_def)

lemma AddMetric_seq_A_A2:
  "lookup_result (AddMetric_seq tenths_ops sample_client [env_A, env_A2]) key_A =
     Some \<lparr>tags = [''deployment=prod'', ''job=x'', ''index=0'', ''ip=1.2.3.4''],
           points = [\<lparr>Timestamp = 1, Value = 35\<rparr>, \<lparr>Timestamp = 5, Value = 40\<rparr>]\<rparr>"
  by (simp add: AddMetric_data [OF is_data_A(1) getValue_A(1)] AddMetric_data [OF is_data_A(2) getValue_A(2)]
      envelope_key_A getTags_A lookup_result_def map_index_def observation_def)
     (simp add: sample_client_def New_def env_A_def env_A2_def int64_quo_examples)

text \<open>
  Claim C3. Ingesting a sequence of value-metric or counter-event envelopes that all
  have the identity \<open>key\<close> never aborts and appends to the points of the entry at
  \<open>key\<close> exactly one point per envelope, in ingestion order, each holding the
  envelope's value and its timestamp in whole seconds; after a non-empty sequence the
  entry exists. From a window without that entry the points are exactly these.
\<close>
theorem C3_points_accumulate:
  assumes "\<forall>e\<in>set es. is_data e \<and> envelope_key e = key"
  shows "\<exists>c' ps. AddMetric_seq F c es = Inr c' \<and>
           points (map_index (metricPoints c') key) = points (map_index (metricPoints c) key) @ ps \<and>
           list_all2 (\<lambda>e p. getValue F e = Inr (Value p) \<and>
                            Timestamp p = int64_quo (GetTimestamp e) time_Second) es ps \<and>
           (es \<noteq> [] \<longrightarrow> key \<in> dom (metricPoints c'))"
proof -
  from AddMetric_seq_same_key [OF assms, of F c] obtain c' ps where
    r: "AddMetric_seq F c es = Inr c'" and
    p: "points (map_index (metricPoints c') key) = points (map_index (metricPoints c) key) @ ps" and
    a: "list_all2 (\<lambda>e p. getValue F e = Inr (Value p) \<and> p = observation e (Value p)) es ps" and
    t: "es \<noteq> [] \<longrightarrow> map_option tags (metricPoints c' key) = Some (getTags (last es))"
    by blast
  have "list_all2 (\<lambda>e p. getValue F e = Inr (Value p) \<and>
                         Timestamp p = int64_quo (GetTimestamp e) time_Second) es ps"
    by (rule list_all2_mono [OF a]) (metis observation_def Point.select_convs(1))
  moreover from t have "es \<noteq> [] \<longrightarrow> key \<in> dom (metricPoints c')"
    by auto
  ultimately show ?thesis using r p by blast
qed

theorem C3_points_accumulate_witness:
  "is_data env_A \<and> envelope_key env_A = key_A \<and> is_data env_A2 \<and> envelope_key env_A2 = key_A \<and>
   (\<exists>c' ps. AddMetric_seq tenths_ops sample_client [env_A, env_A2] = Inr c' \<and>
      points (map_index (metricPoints c') key_A) = ps \<and>
      list_all2 (\<lambda>e p. getValue tenths_ops e = Inr (Value p) \<and>
                       Timestamp p = int64_quo (GetTimestamp e) time_Second) [env_A, env_A2] ps \<and>
      key_A \<in> dom (metricPoints c')) \<and>
   lookup_result (AddMetric_seq tenths_ops sample_client [env_A, env_A2]) key_A =
     Some \<lparr>tags = [''deployment=prod'', ''job=x'', ''index=0'', ''ip=1.2.3.4''],
           points = [\<lparr>Timestamp = 1, Value = 35\<rparr>, \<lparr>Timestamp = 5, Value = 40\<rparr>]\<rparr>"
  using C3_points_accumulate [of "[env_A, env_A2]" key_A tenths_ops sample_client] AddMetric_seq_A_A2
  by (simp add: is_data_A envelope_key_A map_index_def sample_client_def New_def)

lemma no_job_tag:
  "GetJob e = [] \<Longrightarrow> t \<in> set (getTags e) \<Longrightarrow> take 4 t \<noteq> ''job=''"
  by (auto simp: getTags_def appendTagIfNotEmpty_def Let_def split: if_splits)

lemma job_tag:
  "GetJob e \<noteq> [] \<Longrightarrow> ''job='' @ GetJob e \<in> set (getTags e)"
  by (simp add: getTags_def appendTagIfNotEmpty_def Let_def)

lemma AddMetric_seq_two_keys:
  assumes "is_data A" and "is_data B" and "envelope_key A \<noteq> envelope_key B"
  shows "\<exists>c2 vA vB. AddMetric_seq F c [A, B] = Inr c2 \<and>
           metricPoints c2 (envelope_key A) = Some vA \<and> tags vA = getTags A \<and>
           metricPoints c2 (envelope_key B) = Some vB \<and> tags vB = getTags B"
proof -
  from assms(1) obtain a where a: "getValue F A = Inr a" using getValue_data by blast
  from assms(2) obtain b where b: "getValue F B = Inr b" using getValue_data by blast
  show ?thesis
    using assms(3)
    by (simp add: AddMetric_data [OF assms(1) a] AddMetric_data [OF assms(2) b])
qed

text \<open>
  Claim C4 says that an envelope B with the identity of an envelope A but an empty job
  overwrites the tags of A's entry, which then has no job tag. \<open>job\<close> is a field of
  \<open>metricKey\<close>, so B cannot have A's identity: for \<open>env_A\<close> (job \<open>x\<close>) and \<open>env_B\<close>
  (the same envelope with an empty job) the keys differ, and after ingesting both the
  entry of \<open>env_A\<close> still carries \<open>job=x\<close>.
\<close>
theorem C4_overwrite_counterexample:
  "envelope_key env_A \<noteq> envelope_key env_B \<and>
   map_option tags (lookup_result (AddMetric_seq tenths_ops sample_client [env_A, env_B]) (envelope_key env_A))
     = Some [''deployment=prod'', ''job=x'', ''index=0'', ''ip=1.2.3.4'']"
proof -
  have ne: "envelope_key env_A \<noteq> envelope_key env_B"
    by (simp add: envelope_key_def env_A_def env_B_def)
  from AddMetric_seq_two_keys [OF is_data_A(1) is_data_A(3) ne, of tenths_ops sample_client]
  have "map_option tags (lookup_result (AddMetric_seq tenths_ops sample_client [env_A, env_B]) (envelope_key env_A))
     = Some (getTags env_A)"
    by (auto simp: lookup_result_def)
  with ne show ?thesis by (simp add: getTags_A)
qed

text \<open>
  Claim C4, amended. After a non-empty sequence of ingests for one identity the entry's
  tags are those derived from the most recent envelope: \<open>deployment=\<close>, \<open>job=\<close>,
  \<open>index=\<close>, \<open>ip=\<close> in that order with empty fields skipped. These four fields are
  fields of the identity, so the tags are a function of the key (\<open>key_tags\<close>).
  An envelope that differs from A only in having an empty job has another identity:
  ingesting A and then it leaves two entries, A's with its \<open>job=\<close> tag and the other
  one without any \<open>job=\<close> tag.
\<close>
theorem C4_tags_follow_identity:
  "((\<forall>e\<in>set es. is_data e \<and> envelope_key e = key) \<and> es \<noteq> [] \<longrightarrow>
      (\<exists>c' mVal. AddMetric_seq F c es = Inr c' \<and> metricPoints c' key = Some mVal \<and>
         tags mVal = getTags (last es) \<and> tags mVal = key_tags key)) \<and>
   (is_data A \<and> GetJob A \<noteq> [] \<longrightarrow>
      envelope_key (A\<lparr>GetJob := []\<rparr>) \<noteq> envelope_key A \<and>
      (\<exists>c2 vA vB. AddMetric_seq F c [A, A\<lparr>GetJob := []\<rparr>] = Inr c2 \<and>
         metricPoints c2 (envelope_key A) = Some vA \<and> tags vA = getTags A \<and>
         ''job='' @ GetJob A \<in> set (tags vA) \<and>
         metricPoints c2 (envelope_key (A\<lparr>GetJob := []\<rparr>)) = Some vB \<and>
         tags vB = getTags (A\<lparr>GetJob := []\<rparr>) \<and>
         (\<forall>t\<in>set (tags vB). take 4 t \<noteq> ''job='')))"
proof (intro conjI impI)
  assume h: "(\<forall>e\<in>set es. is_data e \<and> envelope_key e = key) \<and> es \<noteq> []"
  then have all: "\<forall>e\<in>set es. is_data e \<and> envelope_key e = key" and ne: "es \<noteq> []" by simp_all
  from AddMetric_seq_same_key [OF all, of F c] ne obtain c' where
    r: "AddMetric_seq F c es = Inr c'" and
    t: "map_option tags (metricPoints c' key) = Some (getTags (last es))"
    by blast
  from t obtain mVal where m: "metricPoints c' key = Some mVal" and tg: "tags mVal = getTags (last es)"
    by auto
  from ne all have "envelope_key (last es) = key" by simp
  then have "getTags (last es) = key_tags key" by (simp add: getTags_key_tags)
  with r m tg show "\<exists>c' mVal. AddMetric_seq F c es = Inr c' \<and> metricPoints c' key = Some mVal \<and>
         tags mVal = getTags (last es) \<and> tags mVal = key_tags key"
    by simp
next
  assume h: "is_data A \<and> GetJob A \<noteq> []"
  then show "envelope_key (A\<lparr>GetJob := []\<rparr>) \<noteq> envelope_key A"
    by (auto simp: envelope_key_def)
next
  assume h: "is_data A \<and> GetJob A \<noteq> []"
  let ?B = "A\<lparr>GetJob := []\<rparr>"
  from h have dA: "is_data A" and j: "GetJob A \<noteq> []" by simp_all
  have dB: "is_data ?B" using dA by (simp add: is_data_def)
  have ne: "envelope_key A \<noteq> envelope_key ?B" using j by (simp add: envelope_key_def)
  from AddMetric_seq_two_keys [OF dA dB ne, of F c] obtain c2 vA vB where
    r: "AddMetric_seq F c [A, ?B] = Inr c2" and
    a: "metricPoints c2 (envelope_key A) = Some vA" "tags vA = getTags A" and
    b: "metricPoints c2 (envelope_key ?B) = Some vB" "tags vB = getTags ?B"
    by blast
  have "''job='' @ GetJob A \<in> set (tags vA)"
    using a(2) j job_tag [of A] by simp
  moreover have "\<forall>t\<in>set (tags vB). take 4 t \<noteq> ''job=''"
    using b(2) no_job_tag [of ?B] by simp
  ultimately show "\<exists>c2 vA vB. AddMetric_seq F c [A, ?B] = Inr c2 \<and>
         metricPoints c2 (envelope_key A) = Some vA \<and> tags vA = getTags A \<and>
         ''job='' @ GetJob A \<in> set (tags vA) \<and>
         metricPoints c2 (envelope_key ?B) = Some vB \<and>
         tags vB = getTags ?B \<and>
         (\<forall>t\<in>set (tags vB). take 4 t \<noteq> ''job='')"
    using r a b by blast
qed

theorem C4_tags_follow_identity_witness:
  "is_data env_A \<and> envelope_key env_A = key_A \<and> is_data env_A2 \<and> envelope_key env_A2 = key_A \<and>
   GetJob env_A = ''x'' \<and>
   (\<exists>c' mVal. AddMetric_seq tenths_ops sample_client [env_A, env_A2] = Inr c' \<and>
      metricPoints c' key_A = Some mVal \<and>
      tags mVal = [''deployment=prod'', ''job=x'', ''index=0'', ''ip=1.2.3.4'']) \<and>
   envelope_key env_B \<noteq> key_A \<and>
   (\<exists>c2 vA vB. AddMetric_seq tenths_ops sample_client [env_A, env_B] = Inr c2 \<and>
      metricPoints c2 key_A = Some vA \<and>
      tags vA = [''deployment=prod'', ''job=x'', ''index=0'', ''ip=1.2.3.4''] \<and>
      metricPoints c2 (envelope_key env_B) = Some vB \<and>
      tags vB = [''deployment=prod'', ''index=0'', ''ip=1.2.3.4''])"
proof -
  have j: "GetJob env_A = ''x''" by (simp add: env_A_def)
  have tB: "getTags env_B = [''deployment=prod'', ''index=0'', ''ip=1.2.3.4'']"
    by (simp add: getTags_def appendTagIfNotEmpty_def env_B_def env_A_def)
  have B: "env_A\<lparr>GetJob := []\<rparr> = env_B" by (simp add: env_B_def)
  from C4_tags_follow_identity [of "[env_A, env_A2]" key_A tenths_ops sample_client env_A]
  show ?thesis
    by (simp add: is_data_A envelope_key_A getTags_A j B tB) blast
qed

text \<open>
  Claim C8 says that ingesting a value-metric or counter-event envelope without its
  nested payload aborts. \<open>getName\<close> and \<open>getValue\<close> panic only in the \<open>default\<close>
  branch of their switch, for other event types, which \<open>AddMetric\<close> has already
  returned on; the payload is read through nil-safe getters. For \<open>env_bare\<close>, a
  value metric without payload, \<open>AddMetric\<close> returns normally and stores an entry
  named \<open>router.\<close> with the value 0.
\<close>
theorem C8_abort_counterexample:
  "GetEventType env_bare = Envelope_ValueMetric \<and> GetValueMetric env_bare = None \<and>
   AddMetric tenths_ops sample_client env_bare =
     Inr (sample_client\<lparr>totalMessagesReceived := 1,
            metricPoints := Map.empty(
              \<lparr>eventType = 6, name = ''router.'', deployment = ''prod'', job = ''x'',
               index = ''0'', ip = ''1.2.3.4''\<rparr> \<mapsto>
              \<lparr>tags = [''deployment=prod'', ''job=x'', ''index=0'', ''ip=1.2.3.4''],
               points = [\<lparr>Timestamp = 1, Value = 0\<rparr>]\<rparr>)\<rparr>)"
  by (simp add: AddMetric_def getName_def getValue_def getTags_def appendTagIfNotEmpty_def
      ValueMetric_GetName_def ValueMetric_GetValue_def map_index_def Envelope_ValueMetric_def
      Envelope_CounterEvent_def env_bare_def env_A_def sample_client_def New_def tenths_ops_def
      int64_quo_examples)

text \<open>
  Claim C8, amended. For every envelope whose kind is value-metric or counter-event and
  whose corresponding payload is missing, ingest does not abort: it returns a client
  whose entry for the envelope's identity, named origin followed by a dot, has the
  freshly derived tags and one more point, with the value zero.
\<close>
theorem C8_missing_payload_is_stored:
  assumes "(GetEventType e = Envelope_ValueMetric \<and> GetValueMetric e = None) \<or>
           (GetEventType e = Envelope_CounterEvent \<and> GetCounterEvent e = None)"
  shows "\<exists>c'. AddMetric F c e = Inr c' \<and>
           name (envelope_key e) = GetOrigin e @ ''.'' \<and>
           metricPoints c' (envelope_key e) =
             Some \<lparr>tags = getTags e,
                   points = points (map_index (metricPoints c) (envelope_key e)) @
                     [\<lparr>Timestamp = int64_quo (GetTimestamp e) time_Second,
                       Value = (if GetEventType e = Envelope_ValueMetric then float64_zero F
                                else float64_of_uint64 F 0)\<rparr>]\<rparr>"
proof -
  from assms have d: "is_data e" by (auto simp: is_data_def)
  from assms have v: "getValue F e =
      Inr (if GetEventType e = Envelope_ValueMetric then float64_zero F else float64_of_uint64 F 0)"
    by (auto simp: getValue_def ValueMetric_GetValue_def CounterEvent_GetTotal_def
        Envelope_ValueMetric_def Envelope_CounterEvent_def)
  from assms have n: "name (envelope_key e) = GetOrigin e @ ''.''"
    by (auto simp: envelope_key_def ValueMetric_GetName_def CounterEvent_GetName_def
        Envelope_ValueMetric_def Envelope_CounterEvent_def)
  show ?thesis
    using n by (simp add: AddMetric_data [OF d v] observation_def)
qed

theorem C8_missing_payload_is_stored_witness:
  "GetEventType env_bare = Envelope_ValueMetric \<and> GetValueMetric env_bare = None \<and>
   (\<exists>c'. AddMetric tenths_ops sample_client env_bare = Inr c' \<and>
      name (envelope_key env_bare) = ''router.'' \<and>
      metricPoints c' (envelope_key env_bare) =
        Some \<lparr>tags = [''deployment=prod'', ''job=x'', ''index=0'', ''ip=1.2.3.4''],
              points = [\<lparr>Timestamp = 1, Value = 0\<rparr>]\<rparr>)"
proof -
  have t: "getTags env_bare = [''deployment=prod'', ''job=x'', ''index=0'', ''ip=1.2.3.4'']"
    by (simp add: getTags_def appendTagIfNotEmpty_def env_bare_def env_A_def)
  have o: "GetOrigin env_bare = ''router''" "GetTimestamp env_bare = 1500000000"
    "GetEventType env_bare = Envelope_ValueMetric" "GetValueMetric env_bare = None"
    by (simp_all add: env_bare_def env_A_def Envelope_ValueMetric_def)
  from C8_missing_payload_is_stored [of env_bare tenths_ops sample_client]
  show ?thesis
    by (simp add: o t int64_quo_examples map_index_def)
       (simp add: sample_client_def New_def tenths_ops_def)
qed

subsection \<open>Internal metrics and sequences of calls\<close>

lemma reading_simps [simp]:
  "reading (now1, now2, now3) ''totalMessagesReceived'' = now1"
  "reading (now1, now2, now3) ''totalMetricsSent'' = now2"
  "reading (now1, now2, now3) ''slowConsumerAlert'' = now3"
  by (simp_all add: reading_def)

lemma addInternalMetric_eq:
  "addInternalMetric F now nm v c =
     c\<lparr>metricPoints := (metricPoints c)(internal_key c nm \<mapsto> internal_entry F now c v)\<rparr>"
  by (simp add: addInternalMetric_def internal_key_def internal_entry_def)

lemma containsSlowConsumerAlert_iff:
  "containsSlowConsumerAlert c \<longleftrightarrow> metricPoints c (internal_key c ''slowConsumerAlert'') \<noteq> None"
  by (simp add: containsSlowConsumerAlert_def internal_key_def split: option.splits)

lemma internal_key_update [simp]:
  "internal_key (c\<lparr>metricPoints := m\<rparr>) nm = internal_key c nm"
  "internal_key (c\<lparr>totalMessagesReceived := r\<rparr>) nm = internal_key c nm"
  "internal_key (c\<lparr>totalMetricsSent := t\<rparr>) nm = internal_key c nm"
  by (simp_all add: internal_key_def)

lemma internal_entry_update [simp]:
  "internal_entry F now (c\<lparr>metricPoints := m\<rparr>) v = internal_entry F now c v"
  by (simp add: internal_entry_def)

lemma internal_key_inject [simp]:
  "internal_key c nm = internal_key c nm' \<longleftrightarrow> nm = nm'"
  by (simp add: internal_key_def)

lemma populateInternalMetrics_eq:
  "populateInternalMetrics F nows c =
     c\<lparr>metricPoints :=
        (if metricPoints c (internal_key c ''slowConsumerAlert'') = None
         then (metricPoints c)
                (internal_key c ''totalMessagesReceived'' \<mapsto> internal_entry F (reading nows ''totalMessagesReceived'') c (totalMessagesReceived c),
                 internal_key c ''totalMetricsSent'' \<mapsto> internal_entry F (reading nows ''totalMetricsSent'') c (totalMetricsSent c),
                 internal_key c ''slowConsumerAlert'' \<mapsto> internal_entry F (reading nows ''slowConsumerAlert'') c 0)
         else (metricPoints c)
                (internal_key c ''totalMessagesReceived'' \<mapsto> internal_entry F (reading nows ''totalMessagesReceived'') c (totalMessagesReceived c),
                 internal_key c ''totalMetricsSent'' \<mapsto> internal_entry F (reading nows ''totalMetricsSent'') c (totalMetricsSent c)))\<rparr>"
  by (cases nows) (simp add: populateInternalMetrics.simps Let_def addInternalMetric_eq
      containsSlowConsumerAlert_iff reading_def)

lemma data_key_not_internal:
  "is_data e \<Longrightarrow> envelope_key e \<noteq> internal_key c nm"
  by (auto simp: is_data_def envelope_key_def internal_key_def Envelope_ValueMetric_def
      Envelope_CounterEvent_def)

lemma step_total: "\<exists>c'. step F c op = Inr c'"
  by (cases op) (simp_all add: AddMetric_total)

lemma run_total: "\<exists>c'. run F c ops = Inr c'"
proof (induction ops arbitrary: c)
  case Nil
  show ?case by simp
next
  case (Cons op ops)
  obtain c1 where "step F c op = Inr c1" using step_total by blast
  with Cons.IH [of c1] show ?case by simp
qed

lemma run_append:
  "run F c ops = Inr c1 \<Longrightarrow> run F c (ops @ ops') = run F c1 ops'"
proof (induction ops arbitrary: c)
  case Nil
  then show ?case by simp
next
  case (Cons op ops)
  obtain c0 where s: "step F c op = Inr c0" using step_total by blast
  with Cons.prems have "run F c0 ops = Inr c1" by simp
  from Cons.IH [OF this] s show ?case by simp
qed

lemma populateInternalMetrics_lookup:
  "metricPoints (populateInternalMetrics F nows c) k =
     (if k = internal_key c ''slowConsumerAlert''
      then (case metricPoints c k of None \<Rightarrow> Some (internal_entry F (reading nows ''slowConsumerAlert'') c 0) | Some mVal \<Rightarrow> Some mVal)
      else if k = internal_key c ''totalMetricsSent''
      then Some (internal_entry F (reading nows ''totalMetricsSent'') c (totalMetricsSent c))
      else if k = internal_key c ''totalMessagesReceived''
      then Some (internal_entry F (reading nows ''totalMessagesReceived'') c (totalMessagesReceived c))
      else metricPoints c k)"
  by (auto simp: populateInternalMetrics_eq split: option.splits)

lemma populateInternalMetrics_frame:
  "c_deployment (populateInternalMetrics F nows c) = c_deployment c"
  "c_ip (populateInternalMetrics F nows c) = c_ip c"
  "prefix (populateInternalMetrics F nows c) = prefix c"
  "totalMessagesReceived (populateInternalMetrics F nows c) = totalMessagesReceived c"
  "totalMetricsSent (populateInternalMetrics F nows c) = totalMetricsSent c"
  by (simp_all add: populateInternalMetrics_eq)

lemma AlertSlowConsumerError_eq:
  "AlertSlowConsumerError F now c =
     c\<lparr>metricPoints := (metricPoints c)(internal_key c ''slowConsumerAlert'' \<mapsto> internal_entry F now c 1)\<rparr>"
  by (simp add: AlertSlowConsumerError_def addInternalMetric_eq)

lemma PostMetrics_client:
  "client (PostMetrics F nows fnow order outcome c) =
     (if transport_ok outcome
      then (populateInternalMetrics F nows c)
             \<lparr>totalMetricsSent := totalMetricsSent c +
                 snd (formatMetrics F fnow order (populateInternalMetrics F nows c)),
              metricPoints := Map.empty\<rparr>
      else populateInternalMetrics F nows c)"
  by (simp add: PostMetrics_def transport_ok_def Let_def populateInternalMetrics_frame
      split: http_outcome.splits prod.splits)

lemma PostMetrics_returned:
  "returned (PostMetrics F nows fnow order outcome c) = None \<longleftrightarrow> transport_ok outcome"
  by (simp add: PostMetrics_def transport_ok_def Let_def split: http_outcome.splits prod.splits)

lemma AddMetric_frame:
  assumes "AddMetric F c e = Inr c'"
  shows "c_deployment c' = c_deployment c" and "c_ip c' = c_ip c" and "prefix c' = prefix c"
    and "metricPoints c' (internal_key c nm) = metricPoints c (internal_key c nm)"
proof -
  have "c_deployment c' = c_deployment c \<and> c_ip c' = c_ip c \<and> prefix c' = prefix c \<and>
        metricPoints c' (internal_key c nm) = metricPoints c (internal_key c nm)"
  proof (cases "is_data e")
    case True
    then obtain v where v: "getValue F e = Inr v" using getValue_data by blast
    from assms show ?thesis
      using data_key_not_internal [OF True, of c nm]
      by (auto simp: AddMetric_data [OF True v])
  next
    case False
    with assms show ?thesis by (auto simp: AddMetric_other)
  qed
  then show "c_deployment c' = c_deployment c" and "c_ip c' = c_ip c" and "prefix c' = prefix c"
    and "metricPoints c' (internal_key c nm) = metricPoints c (internal_key c nm)"
    by simp_all
qed

lemma step_frame:
  assumes "step F c op = Inr c'"
  shows "c_deployment c' = c_deployment c" and "c_ip c' = c_ip c"
proof -
  have "c_deployment c' = c_deployment c \<and> c_ip c' = c_ip c"
  proof (cases op)
    case (Ingest e)
    with assms show ?thesis by (simp add: AddMetric_frame)
  next
    case (Alert now)
    with assms show ?thesis by (auto simp: AlertSlowConsumerError_eq)
  next
    case (Snapshot nows)
    with assms show ?thesis by (auto simp: populateInternalMetrics_frame)
  next
    case (Flush nows fnow order outcome)
    with assms show ?thesis by (auto simp: PostMetrics_client populateInternalMetrics_frame)
  qed
  then show "c_deployment c' = c_deployment c" and "c_ip c' = c_ip c" by simp_all
qed

lemma step_internal_key:
  "step F c op = Inr c' \<Longrightarrow> internal_key c' nm = internal_key c nm"
  by (simp add: internal_key_def step_frame)

lemma run_internal_key:
  "run F c ops = Inr c' \<Longrightarrow> internal_key c' nm = internal_key c nm"
proof (induction ops arbitrary: c)
  case Nil
  then show ?case by simp
next
  case (Cons op ops)
  obtain c1 where s: "step F c op = Inr c1" using step_total by blast
  with Cons.prems have "run F c1 ops = Inr c'" by simp
  from Cons.IH [OF this] step_internal_key [OF s] show ?case by simp
qed

lemma step_keeps_alert:
  assumes "step F c op = Inr c'" and "alert_is F c 1" and "\<not> ends_window op"
  shows "alert_is F c' 1"
proof (cases op)
  case (Ingest e)
  with assms(1) have a: "AddMetric F c e = Inr c'" by simp
  show ?thesis
    using assms(2) step_internal_key [OF assms(1)] AddMetric_frame(4) [OF a]
    by (simp add: alert_is_def)
next
  case (Alert now)
  with assms(1) show ?thesis
    by (auto simp: alert_is_def AlertSlowConsumerError_eq internal_entry_def)
next
  case (Snapshot nows)
  with assms(1) have c': "c' = populateInternalMetrics F nows c" by simp
  show ?thesis
    using assms(2) step_internal_key [OF assms(1)]
    by (auto simp: alert_is_def c' populateInternalMetrics_lookup split: option.splits)
next
  case (Flush nows fnow order outcome)
  with assms(1,3) have c': "c' = populateInternalMetrics F nows c"
    by (simp add: PostMetrics_client)
  show ?thesis
    using assms(2) step_internal_key [OF assms(1)]
    by (auto simp: alert_is_def c' populateInternalMetrics_lookup split: option.splits)
qed

lemma run_keeps_alert:
  assumes "run F c ops = Inr c'" and "alert_is F c 1" and "\<forall>op\<in>set ops. \<not> ends_window op"
  shows "alert_is F c' 1"
  using assms
proof (induction ops arbitrary: c)
  case Nil
  then show ?case by simp
next
  case (Cons op ops)
  obtain c1 where s: "step F c op = Inr c1" using step_total by blast
  with Cons.prems(1) have r: "run F c1 ops = Inr c'" by simp
  from Cons.prems(3) have "\<not> ends_window op" and rest: "\<forall>op\<in>set ops. \<not> ends_window op" by simp_all
  from step_keeps_alert [OF s Cons.prems(2) this(1)] have "alert_is F c1 1" .
  from Cons.IH [OF r this rest] show ?case .
qed

lemma step_keeps_unset:
  assumes "step F c op = Inr c'" and "alert_unset F c" and "\<not> is_alert op"
  shows "alert_unset F c'"
proof (cases op)
  case (Ingest e)
  with assms(1) have a: "AddMetric F c e = Inr c'" by simp
  show ?thesis
    using assms(2) step_internal_key [OF assms(1)] AddMetric_frame(4) [OF a]
    by (simp add: alert_unset_def)
next
  case (Alert now)
  with assms(3) show ?thesis by simp
next
  case (Snapshot nows)
  with assms(1) have c': "c' = populateInternalMetrics F nows c" by simp
  show ?thesis
    using assms(2) step_internal_key [OF assms(1)]
    by (auto simp: alert_unset_def c' populateInternalMetrics_lookup internal_entry_def
        split: option.splits)
next
  case (Flush nows fnow order outcome)
  with assms(1) have c': "c' = client (PostMetrics F nows fnow order outcome c)" by simp
  show ?thesis
    using assms(2) step_internal_key [OF assms(1)]
    by (auto simp: alert_unset_def c' PostMetrics_client populateInternalMetrics_lookup
        internal_entry_def split: option.splits if_splits)
qed

lemma run_keeps_unset:
  assumes "run F c ops = Inr c'" and "alert_unset F c" and "\<forall>op\<in>set ops. \<not> is_alert op"
  shows "alert_unset F c'"
  using assms
proof (induction ops arbitrary: c)
  case Nil
  then show ?case by simp
next
  case (Cons op ops)
  obtain c1 where s: "step F c op = Inr c1" using step_total by blast
  with Cons.prems(1) have r: "run F c1 ops = Inr c'" by simp
  from Cons.prems(3) have "\<not> is_alert op" and rest: "\<forall>op\<in>set ops. \<not> is_alert op" by simp_all
  from step_keeps_unset [OF s Cons.prems(2) this(1)] have "alert_unset F c1" .
  from Cons.IH [OF r this rest] show ?case .
qed

text \<open>
  Claim C5. If \<open>AlertSlowConsumerError\<close> was called earlier in the window (no successful
  flush since, whatever else happened before and after it), the slow-consumer entry
  holds the value 1 when \<open>populateInternalMetrics\<close> runs, and \<open>populateInternalMetrics\<close>
  leaves that entry as it is. If the window started empty and no alert was recorded,
  the entry holds the value 0 after \<open>populateInternalMetrics\<close>, which adds it when it is
  missing.
\<close>
theorem C5_alert_stands:
  "((\<forall>op\<in>set ops2. \<not> ends_window op) \<longrightarrow>
      (\<exists>c1. run F c (ops1 @ Alert t # ops2) = Inr c1 \<and> alert_is F c1 1 \<and>
         metricPoints (populateInternalMetrics F (now1, now2, now3) c1) (internal_key c1 ''slowConsumerAlert'') =
           metricPoints c1 (internal_key c1 ''slowConsumerAlert'') \<and>
         alert_is F (populateInternalMetrics F (now1, now2, now3) c1) 1)) \<and>
   (metricPoints c = Map.empty \<and> (\<forall>op\<in>set ops. \<not> is_alert op) \<longrightarrow>
      (\<exists>c1. run F c ops = Inr c1 \<and> alert_is F (populateInternalMetrics F (now1, now2, now3) c1) 0 \<and>
         (metricPoints c1 (internal_key c1 ''slowConsumerAlert'') = None \<longrightarrow>
            metricPoints (populateInternalMetrics F (now1, now2, now3) c1) (internal_key c1 ''slowConsumerAlert'') =
              Some (internal_entry F now3 c1 0))))"
proof (intro conjI impI)
  assume w: "\<forall>op\<in>set ops2. \<not> ends_window op"
  obtain c0 where r0: "run F c ops1 = Inr c0" using run_total by blast
  let ?ca = "AlertSlowConsumerError F t c0"
  obtain c1 where r1: "run F ?ca ops2 = Inr c1" using run_total by blast
  have r: "run F c (ops1 @ Alert t # ops2) = Inr c1"
    using run_append [OF r0, of "Alert t # ops2"] r1 by simp
  have "alert_is F ?ca 1"
    by (simp add: alert_is_def AlertSlowConsumerError_eq internal_entry_def)
  from run_keeps_alert [OF r1 this w] have a: "alert_is F c1 1" .
  then have same: "metricPoints (populateInternalMetrics F (now1, now2, now3) c1) (internal_key c1 ''slowConsumerAlert'') =
      metricPoints c1 (internal_key c1 ''slowConsumerAlert'')"
    by (auto simp: alert_is_def populateInternalMetrics_lookup split: option.splits)
  have "internal_key (populateInternalMetrics F (now1, now2, now3) c1) ''slowConsumerAlert'' =
      internal_key c1 ''slowConsumerAlert''"
    by (simp add: internal_key_def populateInternalMetrics_frame)
  with a same have "alert_is F (populateInternalMetrics F (now1, now2, now3) c1) 1"
    by (simp add: alert_is_def)
  with r a same show "\<exists>c1. run F c (ops1 @ Alert t # ops2) = Inr c1 \<and> alert_is F c1 1 \<and>
         metricPoints (populateInternalMetrics F (now1, now2, now3) c1) (internal_key c1 ''slowConsumerAlert'') =
           metricPoints c1 (internal_key c1 ''slowConsumerAlert'') \<and>
         alert_is F (populateInternalMetrics F (now1, now2, now3) c1) 1"
    by (intro exI [of _ c1] conjI)
next
  assume h: "metricPoints c = Map.empty \<and> (\<forall>op\<in>set ops. \<not> is_alert op)"
  obtain c1 where r: "run F c ops = Inr c1" using run_total by blast
  from h have "alert_unset F c" by (simp add: alert_unset_def)
  from run_keeps_unset [OF r this] h have u: "alert_unset F c1" by simp
  have k: "internal_key (populateInternalMetrics F (now1, now2, now3) c1) ''slowConsumerAlert'' =
      internal_key c1 ''slowConsumerAlert''"
    by (simp add: internal_key_def populateInternalMetrics_frame)
  have z: "alert_is F (populateInternalMetrics F (now1, now2, now3) c1) 0"
    using u by (auto simp: alert_is_def alert_unset_def k populateInternalMetrics_lookup
        internal_entry_def split: option.splits)
  have "metricPoints c1 (internal_key c1 ''slowConsumerAlert'') = None \<longrightarrow>
      metricPoints (populateInternalMetrics F (now1, now2, now3) c1) (internal_key c1 ''slowConsumerAlert'') =
        Some (internal_entry F now3 c1 0)"
    by (simp add: populateInternalMetrics_lookup)
  with r z show "\<exists>c1. run F c ops = Inr c1 \<and> alert_is F (populateInternalMetrics F (now1, now2, now3) c1) 0 \<and>
         (metricPoints c1 (internal_key c1 ''slowConsumerAlert'') = None \<longrightarrow>
            metricPoints (populateInternalMetrics F (now1, now2, now3) c1) (internal_key c1 ''slowConsumerAlert'') =
              Some (internal_entry F now3 c1 0))"
    by (intro exI [of _ c1] conjI)
qed

theorem C5_alert_stands_witness:
  "(\<exists>c1. run tenths_ops sample_client
            ([Ingest env_A] @ Alert 7 # [Ingest env_A2, Flush (8, 8, 8) (\<lambda>_. 8) [] (DoResponse 500 ''500 Internal Server Error'')])
          = Inr c1 \<and> alert_is tenths_ops c1 1 \<and>
      alert_is tenths_ops (populateInternalMetrics tenths_ops (9, 9, 9) c1) 1) \<and>
   (\<exists>c1. run tenths_ops sample_client [Ingest env_A] = Inr c1 \<and>
      alert_is tenths_ops (populateInternalMetrics tenths_ops (9, 9, 9) c1) 0)"
proof -
  have e: "\<forall>op\<in>set [Ingest env_A2, Flush (8, 8, 8) (\<lambda>_. 8) [] (DoResponse 500 ''500 Internal Server Error'')].
      \<not> ends_window op"
    by (simp add: transport_ok_def)
  have m: "metricPoints sample_client = Map.empty"
    by (simp add: sample_client_def New_def)
  have a: "\<forall>op\<in>set [Ingest env_A]. \<not> is_alert op"
    by simp
  from C5_alert_stands [of "[Ingest env_A2, Flush (8, 8, 8) (\<lambda>_. 8) [] (DoResponse 500 ''500 Internal Server Error'')]"
      tenths_ops sample_client "[Ingest env_A]" 7 9 9 9 "[Ingest env_A]"] e m a
  show ?thesis by blast
qed

lemma step_no_empty_entry:
  assumes "step F c op = Inr c'" and "no_empty_entry c"
  shows "no_empty_entry c'"
proof (cases op)
  case (Ingest e)
  with assms(1) have a: "AddMetric F c e = Inr c'" by simp
  show ?thesis
  proof (cases "is_data e")
    case True
    then obtain v where v: "getValue F e = Inr v" using getValue_data by blast
    from a assms(2) show ?thesis
      by (auto simp: AddMetric_data [OF True v] no_empty_entry_def split: if_splits)
  next
    case False
    with a assms(2) show ?thesis
      by (auto simp: AddMetric_other no_empty_entry_def)
  qed
next
  case (Alert now)
  with assms show ?thesis
    by (auto simp: AlertSlowConsumerError_eq no_empty_entry_def internal_entry_def split: if_splits)
next
  case (Snapshot nows)
  with assms show ?thesis
    by (auto simp: populateInternalMetrics_lookup no_empty_entry_def internal_entry_def
        split: if_splits option.splits)
next
  case (Flush nows fnow order outcome)
  with assms show ?thesis
    by (auto simp: PostMetrics_client populateInternalMetrics_lookup no_empty_entry_def
        internal_entry_def split: if_splits option.splits)
qed

lemma run_no_empty_entry:
  "run F c ops = Inr c' \<Longrightarrow> no_empty_entry c \<Longrightarrow> no_empty_entry c'"
proof (induction ops arbitrary: c)
  case Nil
  then show ?case by simp
next
  case (Cons op ops)
  obtain c1 where s: "step F c op = Inr c1" using step_total by blast
  with Cons.prems(1) have r: "run F c1 ops = Inr c'" by simp
  from Cons.IH [OF r step_no_empty_entry [OF s Cons.prems(2)]] show ?case .
qed

text \<open>
  Claim C9. Every sequence of ingests, alerts, snapshots and flushes run on a new client
  returns a client in which every entry of the map has at least one point, so that
  \<open>formatTimestamp\<close> prints the first point's timestamp for every entry and never reads
  the clock.
\<close>
theorem C9_entries_have_points:
  "\<exists>c. run F (New u db usr pw pre dep addr) ops = Inr c \<and>
     (\<forall>key mVal. metricPoints c key = Some mVal \<longrightarrow>
        points mVal \<noteq> [] \<and>
        (\<forall>now. formatTimestamp now (points mVal) =
                FormatInt (Timestamp (hd (points mVal)) * 1000 * 1000 * 1000)))"
proof -
  obtain c where r: "run F (New u db usr pw pre dep addr) ops = Inr c"
    using run_total by blast
  have "no_empty_entry (New u db usr pw pre dep addr :: 'a Client)"
    by (simp add: no_empty_entry_def New_def)
  from run_no_empty_entry [OF r this] have n: "no_empty_entry c" .
  have "points mVal \<noteq> [] \<and>
        (\<forall>now. formatTimestamp now (points mVal) =
                FormatInt (Timestamp (hd (points mVal)) * 1000 * 1000 * 1000))"
    if "metricPoints c key = Some mVal" for key mVal
  proof -
    from n that have "points mVal \<noteq> []" by (auto simp: no_empty_entry_def)
    then show ?thesis by (simp add: formatTimestamp_def hd_conv_nth)
  qed
  with r show ?thesis by blast
qed

theorem C9_entries_have_points_witness:
  "\<exists>c. run tenths_ops sample_client [Ingest env_A, Alert 7, Snapshot (9, 9, 9)] = Inr c \<and>
     (\<exists>mVal. metricPoints c key_A = Some mVal \<and> points mVal \<noteq> [] \<and>
        formatTimestamp 9 (points mVal) = ''1000000000'')"
proof -
  from C9_entries_have_points [of tenths_ops "''http://influx''" "''metrics''" "''u''" "''p''" "''app.''" "''prod''"
      "''1.2.3.4''" "[Ingest env_A, Alert 7, Snapshot (9, 9, 9)]"]
  obtain c where r: "run tenths_ops sample_client [Ingest env_A, Alert 7, Snapshot (9, 9, 9)] = Inr c"
    and p: "\<And>key mVal. metricPoints c key = Some mVal \<Longrightarrow> points mVal \<noteq> [] \<and>
        (\<forall>now. formatTimestamp now (points mVal) =
                FormatInt (Timestamp (hd (points mVal)) * 1000 * 1000 * 1000))"
    unfolding sample_client_def by blast
  have k: "key_A \<noteq> internal_key c0 nm" for c0 :: "int Client" and nm
    by (simp add: key_A_def internal_key_def)
  have e: "metricPoints c key_A =
      Some \<lparr>tags = getTags env_A, points = [observation env_A 35]\<rparr>"
    using r k
    by (auto simp: AddMetric_data [OF is_data_A(1) getValue_A(1)] envelope_key_A
        AlertSlowConsumerError_eq populateInternalMetrics_lookup map_index_def
        sample_client_def New_def)
  have f: "FormatInt (Timestamp (observation env_A 35) * 1000 * 1000 * 1000) = ''1000000000''"
    by (simp add: observation_def env_A_def int64_quo_examples FormatInt_def decimal.simps
        digit_char_def)
  from p [OF e] e f show ?thesis using r by simp
qed

subsection \<open>Flush\<close>

lemma failed_not_ok:
  "outcome = DoError err \<or> (outcome = DoResponse StatusCode Status \<and> (StatusCode < 200 \<or> 300 \<le> StatusCode))
   \<Longrightarrow> \<not> transport_ok outcome"
  by (auto simp: transport_ok_def)

lemma populateInternalMetrics_dom:
  "dom (metricPoints (populateInternalMetrics F nows c)) =
     dom (metricPoints c) \<union>
     {internal_key c ''totalMessagesReceived'', internal_key c ''totalMetricsSent'',
      internal_key c ''slowConsumerAlert''}"
  by (auto simp: populateInternalMetrics_lookup split: if_splits option.splits)

text \<open>
  Claim C6. When the transport returns an error or a status outside 200..299,
  \<open>PostMetrics\<close> returns an error and leaves the client as \<open>populateInternalMetrics\<close>
  made it: both counters are unchanged, the map is not reset, every entry that was in
  the map before the call is still there unchanged (the two totals entries, which every
  snapshot rewrites, hold the current totals), and the internal metrics of this attempt
  are present.
\<close>
theorem C6_failed_flush_keeps_entries:
  assumes "outcome = DoError err \<or>
           (outcome = DoResponse StatusCode Status \<and> (StatusCode < 200 \<or> 300 \<le> StatusCode))"
    and "c' = client (PostMetrics F (now1, now2, now3) fnow order outcome c)"
  shows "returned (PostMetrics F (now1, now2, now3) fnow order outcome c) \<noteq> None \<and>
         c' = populateInternalMetrics F (now1, now2, now3) c \<and>
         totalMetricsSent c' = totalMetricsSent c \<and>
         totalMessagesReceived c' = totalMessagesReceived c \<and>
         dom (metricPoints c') = dom (metricPoints c) \<union>
           {internal_key c ''totalMessagesReceived'', internal_key c ''totalMetricsSent'',
            internal_key c ''slowConsumerAlert''} \<and>
         (\<forall>k mVal. metricPoints c k = Some mVal \<longrightarrow>
            k \<noteq> internal_key c ''totalMessagesReceived'' \<longrightarrow>
            k \<noteq> internal_key c ''totalMetricsSent'' \<longrightarrow> metricPoints c' k = Some mVal) \<and>
         metricPoints c' (internal_key c ''totalMessagesReceived'') =
           Some (internal_entry F now1 c (totalMessagesReceived c)) \<and>
         metricPoints c' (internal_key c ''totalMetricsSent'') =
           Some (internal_entry F now2 c (totalMetricsSent c)) \<and>
         (metricPoints c (internal_key c ''slowConsumerAlert'') = None \<longrightarrow>
            metricPoints c' (internal_key c ''slowConsumerAlert'') = Some (internal_entry F now3 c 0))"
proof -
  from failed_not_ok [OF assms(1)] have n: "\<not> transport_ok outcome" .
  then have r: "returned (PostMetrics F (now1, now2, now3) fnow order outcome c) \<noteq> None"
    by (simp add: PostMetrics_returned)
  from n assms(2) have c': "c' = populateInternalMetrics F (now1, now2, now3) c"
    by (simp add: PostMetrics_client)
  have keep: "\<forall>k mVal. metricPoints c k = Some mVal \<longrightarrow>
            k \<noteq> internal_key c ''totalMessagesReceived'' \<longrightarrow>
            k \<noteq> internal_key c ''totalMetricsSent'' \<longrightarrow> metricPoints c' k = Some mVal"
    by (simp add: c' populateInternalMetrics_lookup)
  have tot: "metricPoints c' (internal_key c ''totalMessagesReceived'') =
           Some (internal_entry F now1 c (totalMessagesReceived c))"
    "metricPoints c' (internal_key c ''totalMetricsSent'') =
           Some (internal_entry F now2 c (totalMetricsSent c))"
    by (simp_all add: c' populateInternalMetrics_lookup)
  have al: "metricPoints c (internal_key c ''slowConsumerAlert'') = None \<longrightarrow>
            metricPoints c' (internal_key c ''slowConsumerAlert'') = Some (internal_entry F now3 c 0)"
    by (simp add: c' populateInternalMetrics_lookup)
  have d: "dom (metricPoints c') = dom (metricPoints c) \<union>
           {internal_key c ''totalMessagesReceived'', internal_key c ''totalMetricsSent'',
            internal_key c ''slowConsumerAlert''}"
    by (simp add: c' populateInternalMetrics_dom)
  have f: "totalMetricsSent c' = totalMetricsSent c" "totalMessagesReceived c' = totalMessagesReceived c"
    by (simp_all add: c' populateInternalMetrics_frame)
  from r c' f d keep tot al show ?thesis by (intro conjI)
qed

theorem C6_failed_flush_keeps_entries_witness:
  "returned (PostMetrics tenths_ops (9, 9, 9) (\<lambda>_. 9) [] (DoError ''timeout'') (sample_client\<lparr>metricPoints := sample_entries\<rparr>))
     \<noteq> None \<and>
   totalMetricsSent (client (PostMetrics tenths_ops (9, 9, 9) (\<lambda>_. 9) [] (DoError ''timeout'')
     (sample_client\<lparr>metricPoints := sample_entries\<rparr>))) = 0 \<and>
   metricPoints (client (PostMetrics tenths_ops (9, 9, 9) (\<lambda>_. 9) [] (DoError ''timeout'')
     (sample_client\<lparr>metricPoints := sample_entries\<rparr>))) sample_key2 =
     Some \<lparr>tags = [''deployment=prod''], points = [\<lparr>Timestamp = 2, Value = 40\<rparr>]\<rparr> \<and>
   metricPoints (client (PostMetrics tenths_ops (9, 9, 9) (\<lambda>_. 9) [] (DoError ''timeout'')
     (sample_client\<lparr>metricPoints := sample_entries\<rparr>)))
     (internal_key sample_client ''slowConsumerAlert'') =
     Some \<lparr>tags = [''ip=1.2.3.4'', ''deployment=prod''], points = [\<lparr>Timestamp = 9, Value = 0\<rparr>]\<rparr>"
proof -
  let ?c = "sample_client\<lparr>metricPoints := sample_entries\<rparr>"
  have k: "sample_key2 \<noteq> internal_key ?c nm" "sample_key \<noteq> internal_key ?c nm" for nm
    by (simp_all add: sample_key2_def sample_key_def internal_key_def)
  have e: "metricPoints ?c sample_key2 =
      Some \<lparr>tags = [''deployment=prod''], points = [\<lparr>Timestamp = 2, Value = 40\<rparr>]\<rparr>"
    by (simp add: sample_entries_def)
  have a: "metricPoints ?c (internal_key ?c ''slowConsumerAlert'') = None"
    using k [of "''slowConsumerAlert''"] by (simp add: sample_entries_def)
  have i: "internal_entry tenths_ops 9 ?c 0 =
      \<lparr>tags = [''ip=1.2.3.4'', ''deployment=prod''], points = [\<lparr>Timestamp = 9, Value = 0\<rparr>]\<rparr>"
    by (simp add: internal_entry_def sample_client_def New_def tenths_ops_def)
  have t: "totalMetricsSent ?c = 0" by (simp add: sample_client_def New_def)
  have h: "DoError ''timeout'' = DoError ''timeout'' \<or>
      (DoError ''timeout'' = DoResponse 0 [] \<and> ((0::int) < 200 \<or> 300 \<le> (0::int)))"
    by simp
  note th = C6_failed_flush_keeps_entries [OF h refl, of tenths_ops 9 9 9 "\<lambda>_. 9" "[]" ?c]
  note r = th [THEN conjunct1]
  note s = th [THEN conjunct2, THEN conjunct2, THEN conjunct1]
  note keep = th [THEN conjunct2, THEN conjunct2, THEN conjunct2, THEN conjunct2, THEN conjunct2,
      THEN conjunct1, rule_format]
  note al = th [THEN conjunct2, THEN conjunct2, THEN conjunct2, THEN conjunct2, THEN conjunct2,
      THEN conjunct2, THEN conjunct2, THEN conjunct2, rule_format]
  from keep [OF e k(1) k(1)] al [OF a] r s t i
  show ?thesis by simp
qed

lemma PostMetrics_request_body:
  "request_body (PostMetrics F nows fnow order outcome c) =
     fst (formatMetrics F fnow order (populateInternalMetrics F nows c))"
  by (simp add: PostMetrics_def Let_def split: http_outcome.splits prod.splits)

lemma entry_line_internal:
  "entry_line F now' (prefix c) (internal_key c nm) (internal_entry F now c (internal_value c nm)) =
     internal_line F now c nm"
  by (simp add: entry_line_def internal_line_def internal_key_def internal_entry_def value_field_def)

lemma three_keys_length:
  assumes "distinct xs" and "set xs = {a, b, c}" and "a \<noteq> b" and "a \<noteq> c" and "b \<noteq> c"
  shows "length xs = 3"
proof -
  have "length xs = card (set xs)" using assms(1) by (simp add: distinct_card)
  also have "\<dots> = 3" using assms(2-5) by simp
  finally show ?thesis .
qed

lemma populate_empty_lookup:
  assumes "metricPoints c = Map.empty"
    and "nm \<in> {''totalMessagesReceived'', ''totalMetricsSent'', ''slowConsumerAlert''}"
  shows "metricPoints (populateInternalMetrics F nows c) (internal_key c nm) =
           Some (internal_entry F (reading nows nm) c (internal_value c nm))"
  using assms by (auto simp: populateInternalMetrics_lookup internal_value_def)

text \<open>
  Claim C7. After a response with a status in 200..299 \<open>PostMetrics\<close> returns \<open>nil\<close>; the
  map is empty, \<open>totalMessagesReceived\<close> is unchanged, \<open>totalMetricsSent\<close> has grown by
  the record count of the batch, and nothing else in the client has changed. The next
  \<open>PostMetrics\<close>, with no ingest in between, sends exactly three lines, one for each of
  \<open>totalMessagesReceived\<close>, \<open>totalMetricsSent\<close> and \<open>slowConsumerAlert\<close>, in the order
  in which \<open>range\<close> visits them.
\<close>
theorem C7_successful_flush_resets:
  assumes "outcome = DoResponse StatusCode Status" and "200 \<le> StatusCode" and "StatusCode < 300"
    and "c' = client (PostMetrics F nows fnow order outcome c)"
    and "distinct order'"
    and "set order' = dom (metricPoints (populateInternalMetrics F nows' c'))"
  shows "returned (PostMetrics F nows fnow order outcome c) = None \<and>
         metricPoints c' = Map.empty \<and>
         totalMessagesReceived c' = totalMessagesReceived c \<and>
         totalMetricsSent c' = totalMetricsSent c +
           word_of_nat (card (dom (metricPoints (populateInternalMetrics F nows c)))) \<and>
         c'\<lparr>metricPoints := metricPoints c, totalMetricsSent := totalMetricsSent c\<rparr> = c \<and>
         set order' = {internal_key c ''totalMessagesReceived'', internal_key c ''totalMetricsSent'',
                       internal_key c ''slowConsumerAlert''} \<and>
         length order' = 3 \<and>
         request_body (PostMetrics F nows' fnow' order' outcome' c') =
           concat (map (\<lambda>key. internal_line F (reading nows' (name key)) c' (name key)) order') \<and>
         snd (formatMetrics F fnow' order' (populateInternalMetrics F nows' c')) = 3"
proof -
  let ?kr = "internal_key c ''totalMessagesReceived''"
  let ?ks = "internal_key c ''totalMetricsSent''"
  let ?ka = "internal_key c ''slowConsumerAlert''"
  let ?p = "populateInternalMetrics F nows' c'"
  have ok: "transport_ok outcome"
    using assms(1-3) by (simp add: transport_ok_def)
  have c': "c' = (populateInternalMetrics F nows c)
             \<lparr>totalMetricsSent := totalMetricsSent c +
                 snd (formatMetrics F fnow order (populateInternalMetrics F nows c)),
              metricPoints := Map.empty\<rparr>"
    using ok assms(4) by (simp add: PostMetrics_client)
  have ret: "returned (PostMetrics F nows fnow order outcome c) = None"
    using ok by (simp add: PostMetrics_returned)
  have emp: "metricPoints c' = Map.empty" by (simp add: c')
  have recv: "totalMessagesReceived c' = totalMessagesReceived c"
    by (simp add: c' populateInternalMetrics_frame)
  have sent: "totalMetricsSent c' = totalMetricsSent c +
           word_of_nat (card (dom (metricPoints (populateInternalMetrics F nows c))))"
    by (simp add: c' formatMetrics_def)
  have frame: "c'\<lparr>metricPoints := metricPoints c, totalMetricsSent := totalMetricsSent c\<rparr> = c"
    by (simp add: c' populateInternalMetrics_eq)
  have ik: "internal_key c' nm = internal_key c nm" for nm
    by (simp add: c' internal_key_def populateInternalMetrics_frame)
  have dom3: "dom (metricPoints ?p) = {?kr, ?ks, ?ka}"
    by (simp add: populateInternalMetrics_dom emp ik)
  with assms(6) have so: "set order' = {?kr, ?ks, ?ka}" by simp
  have len: "length order' = 3"
    by (rule three_keys_length [OF assms(5) so]) simp_all
  have line: "entry_line F (fnow' key) (prefix ?p) key (map_index (metricPoints ?p) key) =
      internal_line F (reading nows' (name key)) c' (name key)" if "key \<in> set order'" for key
  proof -
    from that so have "key = ?kr \<or> key = ?ks \<or> key = ?ka" by simp
    then have "name key \<in> {''totalMessagesReceived'', ''totalMetricsSent'', ''slowConsumerAlert''} \<and>
        key = internal_key c (name key)"
      by (elim disjE) (simp_all add: internal_key_def)
    then have nm: "name key \<in> {''totalMessagesReceived'', ''totalMetricsSent'', ''slowConsumerAlert''}"
      and key: "key = internal_key c' (name key)"
      by (simp_all add: ik)
    have "map_index (metricPoints ?p) key = internal_entry F (reading nows' (name key)) c' (internal_value c' (name key))"
      using populate_empty_lookup [OF emp nm, of F nows'] key by (simp add: map_index_def)
    then show ?thesis
      using entry_line_internal [of F "fnow' key" c' "name key" "reading nows' (name key)"] key
      by (simp add: populateInternalMetrics_frame)
  qed
  have "request_body (PostMetrics F nows' fnow' order' outcome' c') =
      concat (map (\<lambda>key. entry_line F (fnow' key) (prefix ?p) key (map_index (metricPoints ?p) key)) order')"
    using assms(6) by (simp add: PostMetrics_request_body formatMetrics_def foldl_formatMetrics_body)
  also have "\<dots> = concat (map (\<lambda>key. internal_line F (reading nows' (name key)) c' (name key)) order')"
    using line by (simp cong: map_cong)
  finally have body: "request_body (PostMetrics F nows' fnow' order' outcome' c') =
      concat (map (\<lambda>key. internal_line F (reading nows' (name key)) c' (name key)) order')" .
  have "card (dom (metricPoints ?p)) = 3"
    using assms(5,6) len distinct_card [of order'] by simp
  then have cnt: "snd (formatMetrics F fnow' order' ?p) = 3"
    by (simp add: formatMetrics_def)
  from ret emp recv sent frame so len body cnt show ?thesis by (intro conjI)
qed

lemma sample_entries_card:
  "card (dom (metricPoints (populateInternalMetrics tenths_ops (9, 9, 9)
     (sample_client\<lparr>metricPoints := sample_entries\<rparr>)))) = 5"
  by (simp add: populateInternalMetrics_dom sample_entries_def sample_key_def sample_key2_def
      internal_key_def)

lemma sample_flushed_fields:
  "metricPoints sample_flushed = Map.empty"
  "prefix sample_flushed = ''app.''"
  "c_ip sample_flushed = ''1.2.3.4''"
  "c_deployment sample_flushed = ''prod''"
  "totalMessagesReceived sample_flushed = 0"
  "internal_key sample_flushed nm = internal_key sample_client nm"
  by (simp_all add: sample_flushed_def PostMetrics_client transport_ok_def
      populateInternalMetrics_frame internal_key_def)
     (simp_all add: sample_client_def New_def)

lemma FormatInt_1e10:
  "FormatInt 10000000000 = ''10000000000''"
  "FormatInt 11000000000 = ''11000000000''"
  by (simp_all add: FormatInt_def decimal.simps digit_char_def)

lemma FormatFloat_tenths_small:
  "FormatFloat tenths_ops (float64_of_uint64 tenths_ops 0) = ''0''"
  "FormatFloat tenths_ops (float64_of_uint64 tenths_ops 5) = ''5''"
  by (simp_all add: tenths_ops_def decimal.simps digit_char_def)

theorem C7_successful_flush_resets_witness:
  "returned (PostMetrics tenths_ops (9, 9, 9) (\<lambda>_. 9) [] (DoResponse 204 ''204 No Content'')
     (sample_client\<lparr>metricPoints := sample_entries\<rparr>)) = None \<and>
   metricPoints sample_flushed = Map.empty \<and>
   totalMetricsSent sample_flushed = 5 \<and>
   request_body (PostMetrics tenths_ops (10, 10, 11) (\<lambda>_. 12) sample_order (DoError ''connection refused'') sample_flushed) =
     ''app.totalMetricsSent,ip=1.2.3.4,deployment=prod value=5 10000000000'' @ [CHR 0x0A] @
     ''app.slowConsumerAlert,ip=1.2.3.4,deployment=prod value=0 11000000000'' @ [CHR 0x0A] @
     ''app.totalMessagesReceived,ip=1.2.3.4,deployment=prod value=0 10000000000'' @ [CHR 0x0A]"
proof -
  have d: "distinct sample_order"
    by (simp add: sample_order_def)
  have s: "set sample_order = dom (metricPoints (populateInternalMetrics tenths_ops (10, 10, 11) sample_flushed))"
    by (auto simp: sample_order_def populateInternalMetrics_dom sample_flushed_fields)
  have h: "(200::int) \<le> 204" "(204::int) < 300" by simp_all
  note th = C7_successful_flush_resets [where fnow' = "\<lambda>_. 12" and outcome' = "DoError ''connection refused''",
      OF refl h sample_flushed_def d s]
  note ret = th [THEN conjunct1]
  note sent = th [THEN conjunct2, THEN conjunct2, THEN conjunct2, THEN conjunct1]
  note body = th [THEN conjunct2, THEN conjunct2, THEN conjunct2, THEN conjunct2, THEN conjunct2,
      THEN conjunct2, THEN conjunct2, THEN conjunct1]
  have t: "totalMetricsSent sample_flushed = 5"
    using sent by (simp add: sample_entries_card) (simp add: sample_client_def New_def)
  have n: "name (internal_key sample_client nm) = nm" for nm
    by (simp add: internal_key_def)
  have "request_body (PostMetrics tenths_ops (10, 10, 11) (\<lambda>_. 12) sample_order (DoError ''connection refused'') sample_flushed) =
     ''app.totalMetricsSent,ip=1.2.3.4,deployment=prod value=5 10000000000'' @ [CHR 0x0A] @
     ''app.slowConsumerAlert,ip=1.2.3.4,deployment=prod value=0 11000000000'' @ [CHR 0x0A] @
     ''app.totalMessagesReceived,ip=1.2.3.4,deployment=prod value=0 10000000000'' @ [CHR 0x0A]"
    unfolding body
    by (simp add: sample_order_def n internal_line_def internal_value_def sample_flushed_fields t
        FormatInt_1e10 FormatFloat_tenths_small)
  with ret t show ?thesis by (simp add: sample_flushed_fields)
qed

subsection \<open>The two key spaces\<close>

lemma typed_key_not_internal:
  "eventType k \<noteq> 0 \<Longrightarrow> k \<noteq> internal_key c nm"
proof
  assume "eventType k \<noteq> 0" and "k = internal_key c nm"
  then have "eventType (internal_key c nm) \<noteq> 0" by simp
  then show False by (simp add: internal_key_def)
qed

lemma populateInternalMetrics_other:
  "eventType k \<noteq> 0 \<Longrightarrow> metricPoints (populateInternalMetrics F nows c) k = metricPoints c k"
  by (simp add: populateInternalMetrics_lookup typed_key_not_internal)

lemma AlertSlowConsumerError_other:
  "eventType k \<noteq> 0 \<Longrightarrow> metricPoints (AlertSlowConsumerError F now c) k = metricPoints c k"
  by (simp add: AlertSlowConsumerError_eq typed_key_not_internal)

lemma populateInternalMetrics_reads_internal_only:
  assumes "\<forall>k::metricKey. eventType k = 0 \<longrightarrow> m k = metricPoints c k" and "eventType k = 0"
  shows "metricPoints (populateInternalMetrics F nows (c\<lparr>metricPoints := m\<rparr>)) k =
         metricPoints (populateInternalMetrics F nows c) k"
proof -
  have a: "m (internal_key c ''slowConsumerAlert'') = metricPoints c (internal_key c ''slowConsumerAlert'')"
    using assms(1) by (simp add: internal_key_def)
  have b: "m k = metricPoints c k" using assms by simp
  show ?thesis
    by (simp add: populateInternalMetrics_lookup a b split: option.splits)
qed

text \<open>
  Claim C10. Internal metrics are stored under keys whose event type is the zero value,
  ingested entries under keys whose event type is \<open>ValueMetric\<close> or \<open>CounterEvent\<close>, so
  no key is both. Ingest changes the map at the envelope's key only, never at a key of
  event type 0, and does not change what \<open>containsSlowConsumerAlert\<close> answers;
  \<open>populateInternalMetrics\<close> and \<open>AlertSlowConsumerError\<close> leave every entry with a
  non-zero event type as it is, and what \<open>populateInternalMetrics\<close> stores under the
  keys of event type 0 does not depend on the other entries. In particular an ingested
  entry named \<open>slowConsumerAlert\<close> with the client's deployment and ip neither
  suppresses the 0 default nor is overwritten by it.
\<close>
theorem C10_key_spaces_disjoint:
  "eventType (internal_key c nm) = 0 \<and>
   (is_data e \<longrightarrow>
      (eventType (envelope_key e) = Envelope_ValueMetric \<or>
       eventType (envelope_key e) = Envelope_CounterEvent) \<and>
      eventType (envelope_key e) \<noteq> 0 \<and>
      envelope_key e \<noteq> internal_key c nm \<and>
      (\<exists>c'. AddMetric F c e = Inr c' \<and>
         (\<forall>k::metricKey. k \<noteq> envelope_key e \<longrightarrow> metricPoints c' k = metricPoints c k) \<and>
         (\<forall>k::metricKey. eventType k = 0 \<longrightarrow> metricPoints c' k = metricPoints c k) \<and>
         containsSlowConsumerAlert c' = containsSlowConsumerAlert c)) \<and>
   (\<not> is_data e \<longrightarrow> (\<exists>c'. AddMetric F c e = Inr c' \<and> metricPoints c' = metricPoints c)) \<and>
   (\<forall>k::metricKey. eventType k \<noteq> 0 \<longrightarrow>
      metricPoints (populateInternalMetrics F (now1, now2, now3) c) k = metricPoints c k \<and>
      metricPoints (AlertSlowConsumerError F now c) k = metricPoints c k) \<and>
   (\<forall>m. (\<forall>k::metricKey. eventType k = 0 \<longrightarrow> m k = metricPoints c k) \<longrightarrow>
      containsSlowConsumerAlert (c\<lparr>metricPoints := m\<rparr>) = containsSlowConsumerAlert c \<and>
      (\<forall>k::metricKey. eventType k = 0 \<longrightarrow>
         metricPoints (populateInternalMetrics F (now1, now2, now3) (c\<lparr>metricPoints := m\<rparr>)) k =
         metricPoints (populateInternalMetrics F (now1, now2, now3) c) k)) \<and>
   (\<forall>t j i. t = Envelope_ValueMetric \<or> t = Envelope_CounterEvent \<longrightarrow>
      (metricPoints c (internal_key c ''slowConsumerAlert'') = None \<longrightarrow>
         metricPoints (populateInternalMetrics F (now1, now2, now3) c) (internal_key c ''slowConsumerAlert'') =
           Some (internal_entry F now3 c 0)) \<and>
      metricPoints (populateInternalMetrics F (now1, now2, now3) c)
        \<lparr>eventType = t, name = ''slowConsumerAlert'', deployment = c_deployment c,
         job = j, index = i, ip = c_ip c\<rparr> =
      metricPoints c
        \<lparr>eventType = t, name = ''slowConsumerAlert'', deployment = c_deployment c,
         job = j, index = i, ip = c_ip c\<rparr>)"
proof (intro conjI)
  show "eventType (internal_key c nm) = 0"
    by (simp add: internal_key_def)
next
  show "is_data e \<longrightarrow>
      (eventType (envelope_key e) = Envelope_ValueMetric \<or>
       eventType (envelope_key e) = Envelope_CounterEvent) \<and>
      eventType (envelope_key e) \<noteq> 0 \<and>
      envelope_key e \<noteq> internal_key c nm \<and>
      (\<exists>c'. AddMetric F c e = Inr c' \<and>
         (\<forall>k::metricKey. k \<noteq> envelope_key e \<longrightarrow> metricPoints c' k = metricPoints c k) \<and>
         (\<forall>k::metricKey. eventType k = 0 \<longrightarrow> metricPoints c' k = metricPoints c k) \<and>
         containsSlowConsumerAlert c' = containsSlowConsumerAlert c)"
  proof
    assume d: "is_data e"
    then obtain v where v: "getValue F e = Inr v" using getValue_data by blast
    from d have ty: "eventType (envelope_key e) = Envelope_ValueMetric \<or>
       eventType (envelope_key e) = Envelope_CounterEvent"
      by (simp add: is_data_def envelope_key_def)
    then have nz: "eventType (envelope_key e) \<noteq> 0"
      by (auto simp: Envelope_ValueMetric_def Envelope_CounterEvent_def)
    have ne: "envelope_key e \<noteq> internal_key c nm"
      by (rule data_key_not_internal [OF d])
    define c' where "c' = c\<lparr>totalMessagesReceived := totalMessagesReceived c + 1,
        metricPoints := (metricPoints c)(envelope_key e \<mapsto>
          \<lparr>tags = getTags e,
           points = points (map_index (metricPoints c) (envelope_key e)) @ [observation e v]\<rparr>)\<rparr>"
    have a: "AddMetric F c e = Inr c'"
      by (simp add: AddMetric_data [OF d v] c'_def)
    have o: "\<forall>k::metricKey. k \<noteq> envelope_key e \<longrightarrow> metricPoints c' k = metricPoints c k"
      by (simp add: c'_def)
    have z: "\<forall>k::metricKey. eventType k = 0 \<longrightarrow> metricPoints c' k = metricPoints c k"
      using nz by (auto simp: c'_def)
    have s: "containsSlowConsumerAlert c' = containsSlowConsumerAlert c"
      using data_key_not_internal [OF d, of c "''slowConsumerAlert''"]
      by (simp add: containsSlowConsumerAlert_iff c'_def)
    from a o z s have "\<exists>c'. AddMetric F c e = Inr c' \<and>
         (\<forall>k::metricKey. k \<noteq> envelope_key e \<longrightarrow> metricPoints c' k = metricPoints c k) \<and>
         (\<forall>k::metricKey. eventType k = 0 \<longrightarrow> metricPoints c' k = metricPoints c k) \<and>
         containsSlowConsumerAlert c' = containsSlowConsumerAlert c"
      by (intro exI [of _ c'] conjI)
    with ty nz ne show "(eventType (envelope_key e) = Envelope_ValueMetric \<or>
       eventType (envelope_key e) = Envelope_CounterEvent) \<and>
      eventType (envelope_key e) \<noteq> 0 \<and>
      envelope_key e \<noteq> internal_key c nm \<and>
      (\<exists>c'. AddMetric F c e = Inr c' \<and>
         (\<forall>k::metricKey. k \<noteq> envelope_key e \<longrightarrow> metricPoints c' k = metricPoints c k) \<and>
         (\<forall>k::metricKey. eventType k = 0 \<longrightarrow> metricPoints c' k = metricPoints c k) \<and>
         containsSlowConsumerAlert c' = containsSlowConsumerAlert c)"
      by (intro conjI)
  qed
next
  show "\<not> is_data e \<longrightarrow> (\<exists>c'. AddMetric F c e = Inr c' \<and> metricPoints c' = metricPoints c)"
    by (simp add: AddMetric_other)
next
  show "\<forall>k::metricKey. eventType k \<noteq> 0 \<longrightarrow>
      metricPoints (populateInternalMetrics F (now1, now2, now3) c) k = metricPoints c k \<and>
      metricPoints (AlertSlowConsumerError F now c) k = metricPoints c k"
    by (simp add: populateInternalMetrics_other AlertSlowConsumerError_other)
next
  show "\<forall>m. (\<forall>k::metricKey. eventType k = 0 \<longrightarrow> m k = metricPoints c k) \<longrightarrow>
      containsSlowConsumerAlert (c\<lparr>metricPoints := m\<rparr>) = containsSlowConsumerAlert c \<and>
      (\<forall>k::metricKey. eventType k = 0 \<longrightarrow>
         metricPoints (populateInternalMetrics F (now1, now2, now3) (c\<lparr>metricPoints := m\<rparr>)) k =
         metricPoints (populateInternalMetrics F (now1, now2, now3) c) k)"
  proof (intro allI impI conjI)
    fix m :: "metricKey \<rightharpoonup> 'a metricValue"
    assume h: "\<forall>k::metricKey. eventType k = 0 \<longrightarrow> m k = metricPoints c k"
    then have "m (internal_key c ''slowConsumerAlert'') = metricPoints c (internal_key c ''slowConsumerAlert'')"
      by (simp add: internal_key_def)
    then show "containsSlowConsumerAlert (c\<lparr>metricPoints := m\<rparr>) = containsSlowConsumerAlert c"
      by (simp add: containsSlowConsumerAlert_iff)
  next
    fix m :: "metricKey \<rightharpoonup> 'a metricValue" and k :: metricKey
    assume h: "\<forall>k::metricKey. eventType k = 0 \<longrightarrow> m k = metricPoints c k" and k: "eventType k = 0"
    show "metricPoints (populateInternalMetrics F (now1, now2, now3) (c\<lparr>metricPoints := m\<rparr>)) k =
         metricPoints (populateInternalMetrics F (now1, now2, now3) c) k"
      by (rule populateInternalMetrics_reads_internal_only [OF h k])
  qed
next
  show "\<forall>t j i. t = Envelope_ValueMetric \<or> t = Envelope_CounterEvent \<longrightarrow>
      (metricPoints c (internal_key c ''slowConsumerAlert'') = None \<longrightarrow>
         metricPoints (populateInternalMetrics F (now1, now2, now3) c) (internal_key c ''slowConsumerAlert'') =
           Some (internal_entry F now3 c 0)) \<and>
      metricPoints (populateInternalMetrics F (now1, now2, now3) c)
        \<lparr>eventType = t, name = ''slowConsumerAlert'', deployment = c_deployment c,
         job = j, index = i, ip = c_ip c\<rparr> =
      metricPoints c
        \<lparr>eventType = t, name = ''slowConsumerAlert'', deployment = c_deployment c,
         job = j, index = i, ip = c_ip c\<rparr>"
  proof (intro allI impI conjI)
    assume "metricPoints c (internal_key c ''slowConsumerAlert'') = None"
    then show "metricPoints (populateInternalMetrics F (now1, now2, now3) c) (internal_key c ''slowConsumerAlert'') =
           Some (internal_entry F now3 c 0)"
      by (simp add: populateInternalMetrics_lookup)
  next
    fix t :: Envelope_EventType and j i
    assume "t = Envelope_ValueMetric \<or> t = Envelope_CounterEvent"
    then have "eventType \<lparr>eventType = t, name = ''slowConsumerAlert'', deployment = c_deployment c,
         job = j, index = i, ip = c_ip c\<rparr> \<noteq> 0"
      by (auto simp: Envelope_ValueMetric_def Envelope_CounterEvent_def)
    then show "metricPoints (populateInternalMetrics F (now1, now2, now3) c)
        \<lparr>eventType = t, name = ''slowConsumerAlert'', deployment = c_deployment c,
         job = j, index = i, ip = c_ip c\<rparr> =
      metricPoints c
        \<lparr>eventType = t, name = ''slowConsumerAlert'', deployment = c_deployment c,
         job = j, index = i, ip = c_ip c\<rparr>"
      by (rule populateInternalMetrics_other)
  qed
qed

theorem C10_key_spaces_disjoint_witness:
  "eventType (internal_key ingested_alert_client ''slowConsumerAlert'') = 0 \<and>
   is_data env_A \<and>
   envelope_key env_A \<noteq> internal_key ingested_alert_client ''slowConsumerAlert'' \<and>
   ingested_alert_key \<noteq> internal_key ingested_alert_client ''slowConsumerAlert'' \<and>
   metricPoints (populateInternalMetrics tenths_ops (9, 9, 9) ingested_alert_client)
     (internal_key ingested_alert_client ''slowConsumerAlert'') =
     Some \<lparr>tags = [''ip=1.2.3.4'', ''deployment=prod''], points = [\<lparr>Timestamp = 9, Value = 0\<rparr>]\<rparr> \<and>
   metricPoints (populateInternalMetrics tenths_ops (9, 9, 9) ingested_alert_client) ingested_alert_key =
     Some \<lparr>tags = [''deployment=prod'', ''ip=1.2.3.4''], points = [\<lparr>Timestamp = 3, Value = 35\<rparr>]\<rparr>"
proof -
  let ?c = ingested_alert_client
  have f: "c_deployment ?c = ''prod''" "c_ip ?c = ''1.2.3.4''"
    by (simp_all add: ingested_alert_client_def sample_client_def New_def)
  have ne: "ingested_alert_key \<noteq> internal_key ?c ''slowConsumerAlert''"
    by (simp add: ingested_alert_key_def internal_key_def Envelope_ValueMetric_def)
  then have none: "metricPoints ?c (internal_key ?c ''slowConsumerAlert'') = None"
    by (simp add: ingested_alert_client_def)
  have k: "\<lparr>eventType = Envelope_ValueMetric, name = ''slowConsumerAlert'',
            deployment = c_deployment ?c, job = [], index = [], ip = c_ip ?c\<rparr> = ingested_alert_key"
    by (simp add: ingested_alert_key_def f)
  have old: "metricPoints ?c ingested_alert_key =
      Some \<lparr>tags = [''deployment=prod'', ''ip=1.2.3.4''], points = [\<lparr>Timestamp = 3, Value = 35\<rparr>]\<rparr>"
    by (simp add: ingested_alert_client_def)
  have i: "internal_entry tenths_ops 9 ?c 0 =
      \<lparr>tags = [''ip=1.2.3.4'', ''deployment=prod''], points = [\<lparr>Timestamp = 9, Value = 0\<rparr>]\<rparr>"
    by (simp add: internal_entry_def f tenths_ops_def)
  note th = C10_key_spaces_disjoint [of ?c "''slowConsumerAlert''" env_A tenths_ops 9 9 9]
  note zero = th [THEN conjunct1]
  note data = th [THEN conjunct2, THEN conjunct1, rule_format, OF is_data_A(1)]
  note disj = data [THEN conjunct2, THEN conjunct2, THEN conjunct1]
  note last = th [THEN conjunct2, THEN conjunct2, THEN conjunct2, THEN conjunct2, THEN conjunct2,
      rule_format, of Envelope_ValueMetric "[]" "[]", OF disjI1 [OF refl]]
  note dflt = last [THEN conjunct1, rule_format, OF none]
  note kept = last [THEN conjunct2]
  from zero disj ne dflt kept show ?thesis
    by (simp add: is_data_A k old i)
qed

end
